theory Spec2Isabelle
  imports Complex_Main "HOL-Library.Log_Nat"
begin

section \<open>JavaScript values\<close>

text \<open>
  A JavaScript \<open>number\<close> is an IEEE double. A finite double is represented by the
  rational number it denotes; \<open>NaN\<close>, the infinities and the sign of zero are outside
  the model. The arithmetic is given in two readings. In the exact reading \<open>+\<close>, \<open>-\<close>,
  \<open>*\<close> and \<open>/\<close> are those of the rationals: it is the computation without rounding, and
  the statements made in it are about which quantities a result is made from. In the
  reading in doubles (\<open>fadd\<close>, \<open>fsub\<close>, \<open>fmul\<close>, \<open>fdiv\<close> below) every operation rounds its
  exact result to the nearest double, as the machine does; the statements that compare
  sums formed along different paths are made in this reading.

  An optional string (\<open>state\<close>, \<open>gstin\<close>) is a string whose absent value is the empty
  string: both are falsy, and the code only ever tests them for truthiness before use.
  An object used as a dictionary is an association list in insertion order with
  distinct keys when its entries are listed, and a map when it is only read by key;
  keys that collide with members of \<open>Object.prototype\<close> are outside the model, and so is
  the position that \<open>Object.entries\<close> gives to keys that look like array indices (no
  statement below depends on the order of rows).
\<close>

type_synonym number = rat

text \<open>Exceptions the synchronous code can raise.\<close>

datatype js_error = RangeError | TypeError

text \<open>\<open>String.prototype.toLowerCase\<close>, on the ASCII letters.\<close>

definition lower_char :: "char \<Rightarrow> char" where
  "lower_char c =
     (case map_of (zip ''ABCDEFGHIJKLMNOPQRSTUVWXYZ'' ''abcdefghijklmnopqrstuvwxyz'') c of
        Some l \<Rightarrow> l
      | None \<Rightarrow> c)"

definition toLowerCase :: "string \<Rightarrow> string" where
  "toLowerCase s = map lower_char s"

text \<open>
  \<open>x?.f || d\<close> on numbers: \<open>None\<close> is \<open>undefined\<close> (the object is missing), and a
  number is falsy exactly when it is zero.
\<close>

fun js_or :: "number option \<Rightarrow> number \<Rightarrow> number" where
  "js_or None d = d"
| "js_or (Some x) d = (if x = 0 then d else x)"

text \<open>Sequencing of computations that may raise.\<close>

fun bind_err :: "js_error + 'a \<Rightarrow> ('a \<Rightarrow> js_error + 'b) \<Rightarrow> js_error + 'b" where
  "bind_err (Inl e) f = Inl e"
| "bind_err (Inr x) f = f x"

section \<open>The arithmetic of doubles\<close>

text \<open>
  A double has a significand of 53 bits and an exponent that puts its last bit at
  \<open>2 ^ q\<close> with \<open>q \<ge> -1074\<close>. \<open>pow2 q\<close> is \<open>2 ^ q\<close> for an integer \<open>q\<close>, and \<open>ilog2 a\<close> is
  the exponent of the leading bit of a positive rational: \<open>2 ^ ilog2 a \<le> a < 2 ^ (ilog2 a + 1)\<close>.
\<close>

definition pow2 :: "int \<Rightarrow> rat" where
  "pow2 n = (if 0 \<le> n then 2 ^ nat n else 1 / 2 ^ nat (- n))"

definition ilog2 :: "rat \<Rightarrow> int" where
  "ilog2 a =
     (case quotient_of a of (p, q) \<Rightarrow>
        let d = bitlen p - bitlen q in if pow2 d \<le> a then d else d - 1)"

text \<open>Rounding to the nearest integer, a tie going to the even one.\<close>

definition round_half_even :: "rat \<Rightarrow> int" where
  "round_half_even s =
     (let f = \<lfloor>s\<rfloor>; r = s - of_int f
      in if r < 1 / 2 then f else if 1 / 2 < r then f + 1 else if even f then f else f + 1)"

text \<open>
  The double nearest to a rational, ties to even: the value is rounded at the last
  bit that a 53-bit significand leaves to it (or at \<open>2 ^ -1074\<close>, for a subnormal).
  A result of magnitude \<open>2 ^ 1024\<close> or more, which the machine turns into an infinity, is
  outside the model.
\<close>

definition round_double :: "rat \<Rightarrow> rat" where
  "round_double x =
     (if x = 0 then 0
      else let a = \<bar>x\<bar>; q = max (ilog2 a - 52) (- 1074)
           in sgn x * of_int (round_half_even (a / pow2 q)) * pow2 q)"

text \<open>
  JavaScript's \<open>+\<close>, \<open>-\<close>, \<open>*\<close> and \<open>/\<close> on doubles: the exact result, rounded once.
\<close>

definition fadd :: "number \<Rightarrow> number \<Rightarrow> number" where
  "fadd x y = round_double (x + y)"

definition fsub :: "number \<Rightarrow> number \<Rightarrow> number" where
  "fsub x y = round_double (x - y)"

definition fmul :: "number \<Rightarrow> number \<Rightarrow> number" where
  "fmul x y = round_double (x * y)"

definition fdiv :: "number \<Rightarrow> number \<Rightarrow> number" where
  "fdiv x y = round_double (x / y)"

section \<open>Data model (the types the components import)\<close>

record Ledger =
  l_name :: string
  l_state :: string
  l_registrationType :: string
  l_gstin :: string

record StockItem =
  si_name :: string
  si_gstRate :: number

record CompanyDetails =
  cd_state :: string

record ExtractedLineItem =
  itemDescription :: string
  hsnCode :: string
  quantity :: number
  rate :: number

record ExtractedInvoiceData =
  sellerName :: string
  invoiceNumber :: string
  invoiceDate :: string
  subtotal :: number
  cgstAmount :: number
  sgstAmount :: number
  totalAmount :: number
  lineItems :: "ExtractedLineItem list"

record VoucherItem =
  vi_name :: string
  vi_qty :: number
  vi_rate :: number
  vi_taxableAmount :: number
  vi_cgstAmount :: number
  vi_sgstAmount :: number
  vi_igstAmount :: number
  vi_totalAmount :: number

record SalesPurchaseVoucher =
  v_id :: string
  v_date :: string
  v_invoiceNo :: string
  v_party :: string
  v_isInterState :: bool
  v_items :: "VoucherItem list"
  v_totalTaxableAmount :: number
  v_totalCgst :: number
  v_totalSgst :: number
  v_totalIgst :: number
  v_total :: number
  v_narration :: string

record PaymentReceiptVoucher =
  pr_party :: string
  pr_account :: string
  pr_amount :: number

record ContraVoucher =
  c_fromAccount :: string
  c_toAccount :: string
  c_amount :: number

record JournalEntry =
  je_ledger :: string
  je_debit :: number
  je_credit :: number

text \<open>
  The \<open>type\<close> discriminator of a voucher is the constructor. Only the fields the
  reports read are kept for the payment, receipt, contra and journal kinds.
\<close>

datatype Voucher =
    Purchase SalesPurchaseVoucher
  | Sales SalesPurchaseVoucher
  | Payment PaymentReceiptVoucher
  | Receipt PaymentReceiptVoucher
  | Contra ContraVoucher
  | Journal "JournalEntry list"

record UploadedFile =
  file_name :: string
  file_lastModified :: nat
  file_mimeType :: string

datatype Status = Pending | Processing | Success | Error

record MassUploadFile =
  f_id :: string
  f_file :: UploadedFile
  f_status :: Status
  f_extractedData :: "ExtractedInvoiceData option"
  f_error :: "string option"

section \<open>MassUploadModal: the save path\<close>

text \<open>
  The platform's \<open>Date\<close>, as far as \<open>handleSave\<close> uses it: \<open>parseDate s\<close> is the time
  value of \<open>new Date(s)\<close> (\<open>None\<close> for an Invalid Date), \<open>toISOString t\<close> is the ISO
  string of a valid time value, and \<open>nowTime\<close> is the time value of \<open>new Date()\<close>.
  \<open>Date.prototype.toISOString\<close> raises a \<open>RangeError\<close> on an Invalid Date.
\<close>

record DateApi =
  parseDate :: "string \<Rightarrow> int option"
  toISOString :: "int \<Rightarrow> string"
  nowTime :: int

text \<open>\<open>s.split('T')[0]\<close>: the part of \<open>s\<close> before its first \<open>T\<close>.\<close>

definition split_T_0 :: "string \<Rightarrow> string" where
  "split_T_0 s = takeWhile (\<lambda>c. c \<noteq> CHR ''T'') s"

text \<open>
  \<open>new Date(data.invoiceDate).toISOString().split('T')[0] ||
     new Date().toISOString().split('T')[0]\<close>
\<close>

definition voucherDate :: "DateApi \<Rightarrow> string \<Rightarrow> js_error + string" where
  "voucherDate api s =
     (case parseDate api s of
        None \<Rightarrow> Inl RangeError
      | Some t \<Rightarrow>
          Inr (let d = split_T_0 (toISOString api t)
               in if d \<noteq> [] then d else split_T_0 (toISOString api (nowTime api))))"

text \<open>\<open>ledgers.find(l => l.name.toLowerCase() === sellerName.toLowerCase())\<close>\<close>

definition findPartyLedger :: "Ledger list \<Rightarrow> string \<Rightarrow> Ledger option" where
  "findPartyLedger ledgers seller =
     find (\<lambda>l. toLowerCase (l_name l) = toLowerCase seller) ledgers"

text \<open>
  \<open>(partyLedger?.state && companyDetails.state)
       ? partyLedger.state.toLowerCase() !== companyDetails.state.toLowerCase() : false\<close>
\<close>

definition isInterStateOf :: "Ledger list \<Rightarrow> CompanyDetails \<Rightarrow> string \<Rightarrow> bool" where
  "isInterStateOf ledgers companyDetails seller =
     (case findPartyLedger ledgers seller of
        None \<Rightarrow> False
      | Some partyLedger \<Rightarrow>
          if l_state partyLedger \<noteq> [] \<and> cd_state companyDetails \<noteq> []
          then toLowerCase (l_state partyLedger) \<noteq> toLowerCase (cd_state companyDetails)
          else False)"

text \<open>\<open>stockItems.find(si => si.name.toLowerCase() === item.itemDescription.toLowerCase())\<close>\<close>

definition findStockItem :: "StockItem list \<Rightarrow> ExtractedLineItem \<Rightarrow> StockItem option" where
  "findStockItem stockItems item =
     find (\<lambda>si. toLowerCase (si_name si) = toLowerCase (itemDescription item)) stockItems"

text \<open>\<open>stockItem?.gstRate || 18\<close>, the rate of the save path.\<close>

definition save_gstRate :: "StockItem list \<Rightarrow> ExtractedLineItem \<Rightarrow> number" where
  "save_gstRate stockItems item =
     js_or (map_option si_gstRate (findStockItem stockItems item)) 18"

text \<open>The callback of \<open>(data.lineItems || []).map(...)\<close> in \<open>handleSave\<close>.\<close>

definition handleSave_item :: "StockItem list \<Rightarrow> bool \<Rightarrow> ExtractedLineItem \<Rightarrow> VoucherItem" where
  "handleSave_item stockItems isInterState item =
     (let gstRate = save_gstRate stockItems item;
          taxableAmount = quantity item * rate item;
          tax = taxableAmount * (gstRate / 100)
      in \<lparr> vi_name = itemDescription item, vi_qty = quantity item, vi_rate = rate item,
           vi_taxableAmount = taxableAmount,
           vi_cgstAmount = (if isInterState then 0 else tax / 2),
           vi_sgstAmount = (if isInterState then 0 else tax / 2),
           vi_igstAmount = (if isInterState then tax else 0),
           vi_totalAmount = taxableAmount + tax \<rparr>)"

text \<open>The accumulator of \<open>items.reduce(...)\<close> and its step.\<close>

record Totals =
  totalTaxableAmount :: number
  totalCgst :: number
  totalSgst :: number
  totalIgst :: number
  grandTotal :: number

definition totals_step :: "Totals \<Rightarrow> VoucherItem \<Rightarrow> Totals" where
  "totals_step acc item =
     \<lparr> totalTaxableAmount = totalTaxableAmount acc + vi_taxableAmount item,
       totalCgst = totalCgst acc + vi_cgstAmount item,
       totalSgst = totalSgst acc + vi_sgstAmount item,
       totalIgst = totalIgst acc + vi_igstAmount item,
       grandTotal = grandTotal acc + vi_totalAmount item \<rparr>"

definition totals_of :: "VoucherItem list \<Rightarrow> Totals" where
  "totals_of its =
     foldl totals_step
       \<lparr> totalTaxableAmount = 0, totalCgst = 0, totalSgst = 0, totalIgst = 0, grandTotal = 0 \<rparr>
       its"

text \<open>
  The callback of \<open>files.filter(...).map(...)\<close> in \<open>handleSave\<close>: the voucher made from
  one file's extracted data. The date is the only expression of the body that can raise.
\<close>

definition handleSave_voucher ::
  "DateApi \<Rightarrow> Ledger list \<Rightarrow> StockItem list \<Rightarrow> CompanyDetails \<Rightarrow> UploadedFile \<Rightarrow>
   ExtractedInvoiceData \<Rightarrow> js_error + SalesPurchaseVoucher" where
  "handleSave_voucher api ledgers stockItems companyDetails fl data =
     (let isInterState = isInterStateOf ledgers companyDetails (sellerName data);
          its = map (handleSave_item stockItems isInterState) (lineItems data);
          t = totals_of its
      in bind_err (voucherDate api (invoiceDate data)) (\<lambda>d.
           Inr \<lparr> v_id = [], v_date = d, v_invoiceNo = invoiceNumber data,
                 v_party = sellerName data, v_isInterState = isInterState, v_items = its,
                 v_totalTaxableAmount = totalTaxableAmount t, v_totalCgst = totalCgst t,
                 v_totalSgst = totalSgst t, v_totalIgst = totalIgst t, v_total = grandTotal t,
                 v_narration = ''Auto-imported from '' @ file_name fl \<rparr>))"

text \<open>
  \<open>handleSave\<close>: the vouchers handed to \<open>onComplete\<close>, or the exception that leaves the
  handler before \<open>onComplete\<close> is called. Only files with status \<open>success\<close> and
  extracted data take part.
\<close>

fun handleSave ::
  "DateApi \<Rightarrow> Ledger list \<Rightarrow> StockItem list \<Rightarrow> CompanyDetails \<Rightarrow> MassUploadFile list \<Rightarrow>
   js_error + Voucher list" where
  "handleSave api ledgers stockItems companyDetails [] = Inr []"
| "handleSave api ledgers stockItems companyDetails (f # fs) =
     (case (f_status f, f_extractedData f) of
        (Success, Some data) \<Rightarrow>
          bind_err (handleSave_voucher api ledgers stockItems companyDetails (f_file f) data) (\<lambda>v.
            bind_err (handleSave api ledgers stockItems companyDetails fs) (\<lambda>vs.
              Inr (Purchase v # vs)))
      | _ \<Rightarrow> handleSave api ledgers stockItems companyDetails fs)"

section \<open>MassUploadModal: the save path in doubles\<close>

text \<open>
  The same callbacks of \<open>handleSave\<close> with the arithmetic of doubles: every \<open>*\<close>, \<open>/\<close> and
  \<open>+\<close> of the source rounds. The ledger and stock-item lookups, the rate and the date
  involve no arithmetic and are shared with the exact reading.
\<close>

definition handleSave_item_fp :: "StockItem list \<Rightarrow> bool \<Rightarrow> ExtractedLineItem \<Rightarrow> VoucherItem" where
  "handleSave_item_fp stockItems isInterState item =
     (let gstRate = save_gstRate stockItems item;
          taxableAmount = fmul (quantity item) (rate item);
          tax = fmul taxableAmount (fdiv gstRate 100)
      in \<lparr> vi_name = itemDescription item, vi_qty = quantity item, vi_rate = rate item,
           vi_taxableAmount = taxableAmount,
           vi_cgstAmount = (if isInterState then 0 else fdiv tax 2),
           vi_sgstAmount = (if isInterState then 0 else fdiv tax 2),
           vi_igstAmount = (if isInterState then tax else 0),
           vi_totalAmount = fadd taxableAmount tax \<rparr>)"

definition totals_step_fp :: "Totals \<Rightarrow> VoucherItem \<Rightarrow> Totals" where
  "totals_step_fp acc item =
     \<lparr> totalTaxableAmount = fadd (totalTaxableAmount acc) (vi_taxableAmount item),
       totalCgst = fadd (totalCgst acc) (vi_cgstAmount item),
       totalSgst = fadd (totalSgst acc) (vi_sgstAmount item),
       totalIgst = fadd (totalIgst acc) (vi_igstAmount item),
       grandTotal = fadd (grandTotal acc) (vi_totalAmount item) \<rparr>"

definition totals_of_fp :: "VoucherItem list \<Rightarrow> Totals" where
  "totals_of_fp its =
     foldl totals_step_fp
       \<lparr> totalTaxableAmount = 0, totalCgst = 0, totalSgst = 0, totalIgst = 0, grandTotal = 0 \<rparr>
       its"

definition handleSave_voucher_fp ::
  "DateApi \<Rightarrow> Ledger list \<Rightarrow> StockItem list \<Rightarrow> CompanyDetails \<Rightarrow> UploadedFile \<Rightarrow>
   ExtractedInvoiceData \<Rightarrow> js_error + SalesPurchaseVoucher" where
  "handleSave_voucher_fp api ledgers stockItems companyDetails fl data =
     (let isInterState = isInterStateOf ledgers companyDetails (sellerName data);
          its = map (handleSave_item_fp stockItems isInterState) (lineItems data);
          t = totals_of_fp its
      in bind_err (voucherDate api (invoiceDate data)) (\<lambda>d.
           Inr \<lparr> v_id = [], v_date = d, v_invoiceNo = invoiceNumber data,
                 v_party = sellerName data, v_isInterState = isInterState, v_items = its,
                 v_totalTaxableAmount = totalTaxableAmount t, v_totalCgst = totalCgst t,
                 v_totalSgst = totalSgst t, v_totalIgst = totalIgst t, v_total = grandTotal t,
                 v_narration = ''Auto-imported from '' @ file_name fl \<rparr>))"

fun handleSave_fp ::
  "DateApi \<Rightarrow> Ledger list \<Rightarrow> StockItem list \<Rightarrow> CompanyDetails \<Rightarrow> MassUploadFile list \<Rightarrow>
   js_error + Voucher list" where
  "handleSave_fp api ledgers stockItems companyDetails [] = Inr []"
| "handleSave_fp api ledgers stockItems companyDetails (f # fs) =
     (case (f_status f, f_extractedData f) of
        (Success, Some data) \<Rightarrow>
          bind_err (handleSave_voucher_fp api ledgers stockItems companyDetails (f_file f) data) (\<lambda>v.
            bind_err (handleSave_fp api ledgers stockItems companyDetails fs) (\<lambda>vs.
              Inr (Purchase v # vs)))
      | _ \<Rightarrow> handleSave_fp api ledgers stockItems companyDetails fs)"

section \<open>MassUploadModal: recalculation on edit\<close>

text \<open>\<open>stockItem?.gstRate || 0\<close>, the rate of the recalculation path.\<close>

definition recalc_gstRate :: "StockItem list \<Rightarrow> ExtractedLineItem \<Rightarrow> number" where
  "recalc_gstRate stockItems item =
     js_or (map_option si_gstRate (findStockItem stockItems item)) 0"

text \<open>
  The body of the \<open>forEach\<close> of \<open>recalculateInvoiceData\<close>, on the three running sums
  \<open>(subtotal, cgstAmount, sgstAmount)\<close>.
\<close>

definition recalc_step ::
  "StockItem list \<Rightarrow> bool \<Rightarrow> number \<times> number \<times> number \<Rightarrow> ExtractedLineItem \<Rightarrow>
   number \<times> number \<times> number" where
  "recalc_step stockItems isInterState acc item =
     (case acc of (sub, cgst, sgst) \<Rightarrow>
        let gstRate = recalc_gstRate stockItems item;
            taxableAmount = quantity item * rate item;
            tax = taxableAmount * (gstRate / 100)
        in if isInterState then (sub + taxableAmount, cgst, sgst)
           else (sub + taxableAmount, cgst + tax / 2, sgst + tax / 2))"

definition recalculateInvoiceData ::
  "Ledger list \<Rightarrow> StockItem list \<Rightarrow> CompanyDetails \<Rightarrow> ExtractedInvoiceData \<Rightarrow> string \<Rightarrow>
   ExtractedInvoiceData" where
  "recalculateInvoiceData ledgers stockItems companyDetails data seller =
     (let isInterState = isInterStateOf ledgers companyDetails seller
      in case foldl (recalc_step stockItems isInterState) (0, 0, 0) (lineItems data) of
           (sub, cgst, sgst) \<Rightarrow>
             let total = sub + cgstAmount data + sgstAmount data
             in data\<lparr> subtotal := sub, cgstAmount := cgst, sgstAmount := sgst,
                       totalAmount := total \<rparr>)"

text \<open>
  \<open>handleLineItemChange\<close> on the data of the file it addresses: one field of one line
  item is replaced and the record is recalculated with its own seller name. The index
  is that of a rendered row; an index past the rows is not modelled (\<open>None\<close>).
\<close>

datatype LineItemEdit =
    SetItemDescription string
  | SetHsnCode string
  | SetQuantity number
  | SetRate number

fun applyEdit :: "LineItemEdit \<Rightarrow> ExtractedLineItem \<Rightarrow> ExtractedLineItem" where
  "applyEdit (SetItemDescription s) item = item\<lparr> itemDescription := s \<rparr>"
| "applyEdit (SetHsnCode s) item = item\<lparr> hsnCode := s \<rparr>"
| "applyEdit (SetQuantity q) item = item\<lparr> quantity := q \<rparr>"
| "applyEdit (SetRate r) item = item\<lparr> rate := r \<rparr>"

definition handleLineItemChange ::
  "Ledger list \<Rightarrow> StockItem list \<Rightarrow> CompanyDetails \<Rightarrow> ExtractedInvoiceData \<Rightarrow> nat \<Rightarrow>
   LineItemEdit \<Rightarrow> ExtractedInvoiceData option" where
  "handleLineItemChange ledgers stockItems companyDetails data itemIndex edit =
     (if itemIndex < length (lineItems data)
      then Some (recalculateInvoiceData ledgers stockItems companyDetails
                   (data\<lparr> lineItems :=
                      (lineItems data)[itemIndex := applyEdit edit (lineItems data ! itemIndex)] \<rparr>)
                   (sellerName data))
      else None)"

section \<open>The extraction service with retries\<close>

text \<open>
  What a rejected promise or a \<open>throw\<close> carries: an \<open>Error\<close> object with its message,
  or a value that is not an \<open>Error\<close> (the event that \<open>FileReader.onerror\<close> passes on).
\<close>

datatype thrown = JsError string | NonError

text \<open>
  The collaborators of \<open>extractInvoiceDataWithRetry\<close>, injected: \<open>fileToBase64\<close> reads
  the file, and \<open>generateAndParse n\<close> is the outcome of the \<open>n\<close>-th execution overall of
  the \<open>try\<close> block (the call of \<open>ai.models.generateContent\<close>, \<open>response.text.trim()\<close>
  and \<open>JSON.parse\<close>): the parsed data, or whatever one of the three throws.
\<close>

record ExtractionService =
  fileToBase64 :: "UploadedFile \<Rightarrow> thrown + string"
  generateAndParse :: "nat \<Rightarrow> UploadedFile \<Rightarrow> string \<Rightarrow> thrown + ExtractedInvoiceData"

text \<open>
  The observable effects: how often the \<open>try\<close> block has run, and the delays that have
  been waited for, in milliseconds and in order.
\<close>

record World =
  calls :: nat
  sleeps :: "nat list"

text \<open>
  The \<open>while (attempt < maxRetries)\<close> loop. The error of an attempt is written to the
  console and dropped; after the last attempt a new \<open>Error\<close> with a fixed message is
  thrown.
\<close>

function retry_loop ::
  "ExtractionService \<Rightarrow> UploadedFile \<Rightarrow> string \<Rightarrow> nat \<Rightarrow> nat \<Rightarrow> nat \<Rightarrow> World \<Rightarrow>
   (thrown + ExtractedInvoiceData) \<times> World" where
  "retry_loop svc fl base64Image maxRetries attempt delay w =
     (if attempt < maxRetries
      then (case generateAndParse svc (calls w) fl base64Image of
              Inr parsedData \<Rightarrow> (Inr parsedData, w\<lparr> calls := calls w + 1 \<rparr>)
            | Inl err \<Rightarrow>
                if attempt + 1 \<ge> maxRetries
                then (Inl (JsError ''Failed to extract invoice data after multiple retries.''),
                      w\<lparr> calls := calls w + 1 \<rparr>)
                else retry_loop svc fl base64Image maxRetries (attempt + 1) (delay * 2)
                       (w\<lparr> calls := calls w + 1, sleeps := sleeps w @ [delay] \<rparr>))
      else (Inl (JsError ''Should not be reached''), w))"
  by pat_completeness auto
termination
  by (relation "measure (\<lambda>(svc, fl, b, maxRetries, attempt, delay, w). maxRetries - attempt)") auto

definition extractInvoiceDataWithRetry ::
  "ExtractionService \<Rightarrow> UploadedFile \<Rightarrow> nat \<Rightarrow> nat \<Rightarrow> World \<Rightarrow>
   (thrown + ExtractedInvoiceData) \<times> World" where
  "extractInvoiceDataWithRetry svc fl maxRetries initialDelay w =
     (case fileToBase64 svc fl of
        Inl err \<Rightarrow> (Inl err, w)
      | Inr base64Image \<Rightarrow> retry_loop svc fl base64Image maxRetries 0 initialDelay w)"

section \<open>MassUploadModal: processing the batch\<close>

text \<open>\<open>setFiles(prev => prev.map(f => f.id === file.id ? g(f) : f))\<close>\<close>

definition update_files ::
  "string \<Rightarrow> (MassUploadFile \<Rightarrow> MassUploadFile) \<Rightarrow> MassUploadFile list \<Rightarrow> MassUploadFile list" where
  "update_files fid g prev = map (\<lambda>f. if f_id f = fid then g f else f) prev"

text \<open>\<open>error instanceof Error ? error.message : 'Unknown extraction error.'\<close>\<close>

definition error_message :: "thrown \<Rightarrow> string" where
  "error_message err = (case err of JsError m \<Rightarrow> m | NonError \<Rightarrow> ''Unknown extraction error.'')"

text \<open>
  The body of \<open>for (const file of files)\<close> in \<open>startProcessing\<close>, on the current state
  of the file list; \<open>extractInvoiceDataWithRetry\<close> is called with its default
  \<open>maxRetries = 3\<close> and \<open>initialDelay = 1000\<close>.
\<close>

definition process_file ::
  "ExtractionService \<Rightarrow> MassUploadFile \<Rightarrow> MassUploadFile list \<times> World \<Rightarrow>
   MassUploadFile list \<times> World" where
  "process_file svc file st =
     (case st of (prev, w) \<Rightarrow>
        if f_status file = Pending
        then let prev1 = update_files (f_id file) (\<lambda>f. f\<lparr> f_status := Processing \<rparr>) prev
             in case extractInvoiceDataWithRetry svc (f_file file) 3 1000 w of
                  (Inr data, w') \<Rightarrow>
                    (update_files (f_id file)
                       (\<lambda>f. f\<lparr> f_status := Success, f_extractedData := Some data \<rparr>) prev1, w')
                | (Inl err, w') \<Rightarrow>
                    (update_files (f_id file)
                       (\<lambda>f. f\<lparr> f_status := Error, f_error := Some (error_message err) \<rparr>) prev1, w')
        else (prev, w))"

text \<open>
  \<open>startProcessing\<close>: the loop runs over the list as it was when the handler started,
  while every \<open>setFiles\<close> updates the current state.
\<close>

definition startProcessing ::
  "ExtractionService \<Rightarrow> MassUploadFile list \<Rightarrow> World \<Rightarrow> MassUploadFile list \<times> World" where
  "startProcessing svc files w = foldl (\<lambda>st file. process_file svc file st) (files, w) files"

section \<open>ReportsPage\<close>

datatype ReportType =
  DayBook | LedgerReport | TrialBalance | StockSummary | GSTR1 | StockValuation | SalesTaxReport

subsection \<open>Objects used as dictionaries\<close>

text \<open>
  \<open>obj[k] = v\<close>: the value of an existing key is replaced where the key stands, a new
  key is added after the others.
\<close>

fun assign :: "string \<Rightarrow> 'v \<Rightarrow> (string \<times> 'v) list \<Rightarrow> (string \<times> 'v) list" where
  "assign k v [] = [(k, v)]"
| "assign k v ((k', v') # rest) =
     (if k' = k then (k, v) # rest else (k', v') # assign k v rest)"

text \<open>
  An update of the object stored under \<open>k\<close>, such as \<open>obj[k].debit += x\<close>, where the
  key is known to be present: the entry of \<open>k\<close> is changed in place.
\<close>

fun modify :: "string \<Rightarrow> ('v \<Rightarrow> 'v) \<Rightarrow> (string \<times> 'v) list \<Rightarrow> (string \<times> 'v) list" where
  "modify k f [] = []"
| "modify k f ((k', v') # rest) =
     (if k' = k then (k', f v') # rest else (k', v') # modify k f rest)"

subsection \<open>Trial balance\<close>

record Balance =
  b_debit :: number
  b_credit :: number

type_synonym Balances = "(string \<times> Balance) list"

text \<open>\<open>if (name && !balances[name]) balances[name] = { debit: 0, credit: 0 }\<close>\<close>

definition ensureLedger :: "string \<Rightarrow> Balances \<Rightarrow> Balances" where
  "ensureLedger name balances =
     (if name \<noteq> [] \<and> map_of balances name = None
      then assign name \<lparr> b_debit = 0, b_credit = 0 \<rparr> balances
      else balances)"

text \<open>
  \<open>balances[name].debit += x\<close> and \<open>balances[name].credit += x\<close>: reading a field of
  \<open>balances[name]\<close> raises a \<open>TypeError\<close> when the key is missing.
\<close>

definition add_debit :: "string \<Rightarrow> number \<Rightarrow> Balances \<Rightarrow> js_error + Balances" where
  "add_debit name x balances =
     (if map_of balances name = None then Inl TypeError
      else Inr (modify name (\<lambda>b. b\<lparr> b_debit := b_debit b + x \<rparr>) balances))"

definition add_credit :: "string \<Rightarrow> number \<Rightarrow> Balances \<Rightarrow> js_error + Balances" where
  "add_credit name x balances =
     (if map_of balances name = None then Inl TypeError
      else Inr (modify name (\<lambda>b. b\<lparr> b_credit := b_credit b + x \<rparr>) balances))"

text \<open>The \<open>forEach\<close> over the entries of a journal voucher.\<close>

fun post_entries :: "JournalEntry list \<Rightarrow> Balances \<Rightarrow> js_error + Balances" where
  "post_entries [] balances = Inr balances"
| "post_entries (e # es) balances =
     (let b1 = ensureLedger (je_ledger e) balances
      in if je_ledger e \<noteq> []
         then bind_err (add_debit (je_ledger e) (je_debit e) b1) (\<lambda>b2.
              bind_err (add_credit (je_ledger e) (je_credit e) b2) (\<lambda>b3.
              post_entries es b3))
         else post_entries es b1)"

text \<open>The \<open>ensureLedger\<close> calls for the three tax ledgers.\<close>

definition ensureTaxLedgers :: "Balances \<Rightarrow> Balances" where
  "ensureTaxLedgers balances =
     ensureLedger ''SGST'' (ensureLedger ''CGST'' (ensureLedger ''IGST'' balances))"

text \<open>The \<open>switch (v.type)\<close> of the \<open>forEach\<close> over the vouchers.\<close>

fun post_voucher :: "Voucher \<Rightarrow> Balances \<Rightarrow> js_error + Balances" where
  "post_voucher (Purchase v) balances =
     (let b0 = ensureTaxLedgers (ensureLedger ''Purchases'' (ensureLedger (v_party v) balances))
      in bind_err (add_credit (v_party v) (v_total v) b0) (\<lambda>b1.
         bind_err (add_debit ''Purchases'' (v_totalTaxableAmount v) b1) (\<lambda>b2.
         if v_isInterState v then add_debit ''IGST'' (v_totalIgst v) b2
         else bind_err (add_debit ''CGST'' (v_totalCgst v) b2) (\<lambda>b3.
              add_debit ''SGST'' (v_totalSgst v) b3))))"
| "post_voucher (Sales v) balances =
     (let b0 = ensureTaxLedgers (ensureLedger ''Sales'' (ensureLedger (v_party v) balances))
      in bind_err (add_debit (v_party v) (v_total v) b0) (\<lambda>b1.
         bind_err (add_credit ''Sales'' (v_totalTaxableAmount v) b1) (\<lambda>b2.
         if v_isInterState v then add_credit ''IGST'' (v_totalIgst v) b2
         else bind_err (add_credit ''CGST'' (v_totalCgst v) b2) (\<lambda>b3.
              add_credit ''SGST'' (v_totalSgst v) b3))))"
| "post_voucher (Payment v) balances =
     (let b0 = ensureLedger (pr_account v) (ensureLedger (pr_party v) balances)
      in bind_err (add_debit (pr_party v) (pr_amount v) b0) (\<lambda>b1.
         add_credit (pr_account v) (pr_amount v) b1))"
| "post_voucher (Receipt v) balances =
     (let b0 = ensureLedger (pr_account v) (ensureLedger (pr_party v) balances)
      in bind_err (add_credit (pr_party v) (pr_amount v) b0) (\<lambda>b1.
         add_debit (pr_account v) (pr_amount v) b1))"
| "post_voucher (Contra v) balances =
     (let b0 = ensureLedger (c_toAccount v) (ensureLedger (c_fromAccount v) balances)
      in bind_err (add_credit (c_fromAccount v) (c_amount v) b0) (\<lambda>b1.
         add_debit (c_toAccount v) (c_amount v) b1))"
| "post_voucher (Journal es) balances = post_entries es balances"

fun post_vouchers :: "Voucher list \<Rightarrow> Balances \<Rightarrow> js_error + Balances" where
  "post_vouchers [] balances = Inr balances"
| "post_vouchers (v # vs) balances = bind_err (post_voucher v balances) (post_vouchers vs)"

record TrialBalanceRow =
  row_ledger :: string
  row_debit :: number
  row_credit :: number

record TrialBalanceTotals =
  tot_debit :: number
  tot_credit :: number

record TrialBalanceReport =
  tb_result :: "TrialBalanceRow list"
  tb_totals :: TrialBalanceTotals

text \<open>The callback of \<open>Object.entries(balances).map(...)\<close>.\<close>

definition net_row :: "string \<times> Balance \<Rightarrow> TrialBalanceRow" where
  "net_row entry =
     (case entry of (ledger, b) \<Rightarrow>
        if b_debit b > b_credit b
        then \<lparr> row_ledger = ledger, row_debit = b_debit b - b_credit b, row_credit = 0 \<rparr>
        else if b_credit b > b_debit b
        then \<lparr> row_ledger = ledger, row_debit = 0, row_credit = b_credit b - b_debit b \<rparr>
        else \<lparr> row_ledger = ledger, row_debit = 0, row_credit = 0 \<rparr>)"

definition trial_rows :: "Balances \<Rightarrow> TrialBalanceRow list" where
  "trial_rows balances =
     filter (\<lambda>item. row_debit item > 0 \<or> row_credit item > 0) (map net_row balances)"

definition trial_totals :: "TrialBalanceRow list \<Rightarrow> TrialBalanceTotals" where
  "trial_totals result =
     foldl (\<lambda>acc curr. \<lparr> tot_debit = tot_debit acc + row_debit curr,
                          tot_credit = tot_credit acc + row_credit curr \<rparr>)
       \<lparr> tot_debit = 0, tot_credit = 0 \<rparr> result"

text \<open>
  \<open>trialBalanceData\<close>: \<open>None\<close> is the \<open>null\<close> returned for another report type, and
  \<open>Inl\<close> the exception of a posting to a ledger whose name is empty.
\<close>

definition trialBalanceData ::
  "ReportType \<Rightarrow> Voucher list \<Rightarrow> Ledger list \<Rightarrow> js_error + TrialBalanceReport option" where
  "trialBalanceData reportType vouchers ledgers =
     (if reportType \<noteq> TrialBalance then Inr None
      else bind_err
             (post_vouchers vouchers (foldl (\<lambda>b l. ensureLedger (l_name l) b) [] ledgers))
             (\<lambda>balances.
                let result = trial_rows balances
                in Inr (Some \<lparr> tb_result = result, tb_totals = trial_totals result \<rparr>)))"

subsection \<open>Trial balance in doubles\<close>

text \<open>
  The same computation with the arithmetic of the machine: \<open>+=\<close> on a balance, the
  subtraction that nets a ledger and the additions of the \<open>reduce\<close> each round their
  result to a double. The comparisons of doubles are exact.
\<close>

definition add_debit_fp :: "string \<Rightarrow> number \<Rightarrow> Balances \<Rightarrow> js_error + Balances" where
  "add_debit_fp name x balances =
     (if map_of balances name = None then Inl TypeError
      else Inr (modify name (\<lambda>b. b\<lparr> b_debit := fadd (b_debit b) x \<rparr>) balances))"

definition add_credit_fp :: "string \<Rightarrow> number \<Rightarrow> Balances \<Rightarrow> js_error + Balances" where
  "add_credit_fp name x balances =
     (if map_of balances name = None then Inl TypeError
      else Inr (modify name (\<lambda>b. b\<lparr> b_credit := fadd (b_credit b) x \<rparr>) balances))"

text \<open>The loops over the entries of a journal and over the vouchers.\<close>

fun post_entries_fp :: "JournalEntry list \<Rightarrow> Balances \<Rightarrow> js_error + Balances" where
  "post_entries_fp [] balances = Inr balances"
| "post_entries_fp (e # es) balances =
     (let b1 = ensureLedger (je_ledger e) balances
      in if je_ledger e \<noteq> []
         then bind_err (add_debit_fp (je_ledger e) (je_debit e) b1) (\<lambda>b2.
              bind_err (add_credit_fp (je_ledger e) (je_credit e) b2) (\<lambda>b3.
              post_entries_fp es b3))
         else post_entries_fp es b1)"

fun post_voucher_fp :: "Voucher \<Rightarrow> Balances \<Rightarrow> js_error + Balances" where
  "post_voucher_fp (Purchase v) balances =
     (let b0 = ensureTaxLedgers (ensureLedger ''Purchases'' (ensureLedger (v_party v) balances))
      in bind_err (add_credit_fp (v_party v) (v_total v) b0) (\<lambda>b1.
         bind_err (add_debit_fp ''Purchases'' (v_totalTaxableAmount v) b1) (\<lambda>b2.
         if v_isInterState v then add_debit_fp ''IGST'' (v_totalIgst v) b2
         else bind_err (add_debit_fp ''CGST'' (v_totalCgst v) b2) (\<lambda>b3.
              add_debit_fp ''SGST'' (v_totalSgst v) b3))))"
| "post_voucher_fp (Sales v) balances =
     (let b0 = ensureTaxLedgers (ensureLedger ''Sales'' (ensureLedger (v_party v) balances))
      in bind_err (add_debit_fp (v_party v) (v_total v) b0) (\<lambda>b1.
         bind_err (add_credit_fp ''Sales'' (v_totalTaxableAmount v) b1) (\<lambda>b2.
         if v_isInterState v then add_credit_fp ''IGST'' (v_totalIgst v) b2
         else bind_err (add_credit_fp ''CGST'' (v_totalCgst v) b2) (\<lambda>b3.
              add_credit_fp ''SGST'' (v_totalSgst v) b3))))"
| "post_voucher_fp (Payment v) balances =
     (let b0 = ensureLedger (pr_account v) (ensureLedger (pr_party v) balances)
      in bind_err (add_debit_fp (pr_party v) (pr_amount v) b0) (\<lambda>b1.
         add_credit_fp (pr_account v) (pr_amount v) b1))"
| "post_voucher_fp (Receipt v) balances =
     (let b0 = ensureLedger (pr_account v) (ensureLedger (pr_party v) balances)
      in bind_err (add_credit_fp (pr_party v) (pr_amount v) b0) (\<lambda>b1.
         add_debit_fp (pr_account v) (pr_amount v) b1))"
| "post_voucher_fp (Contra v) balances =
     (let b0 = ensureLedger (c_toAccount v) (ensureLedger (c_fromAccount v) balances)
      in bind_err (add_credit_fp (c_fromAccount v) (c_amount v) b0) (\<lambda>b1.
         add_debit_fp (c_toAccount v) (c_amount v) b1))"
| "post_voucher_fp (Journal es) balances = post_entries_fp es balances"

fun post_vouchers_fp :: "Voucher list \<Rightarrow> Balances \<Rightarrow> js_error + Balances" where
  "post_vouchers_fp [] balances = Inr balances"
| "post_vouchers_fp (v # vs) balances = bind_err (post_voucher_fp v balances) (post_vouchers_fp vs)"

text \<open>The rows and the totals: \<open>debit - credit\<close> and \<open>acc.debit + curr.debit\<close> round.\<close>

definition net_row_fp :: "string \<times> Balance \<Rightarrow> TrialBalanceRow" where
  "net_row_fp entry =
     (case entry of (ledger, b) \<Rightarrow>
        if b_debit b > b_credit b
        then \<lparr> row_ledger = ledger, row_debit = fsub (b_debit b) (b_credit b), row_credit = 0 \<rparr>
        else if b_credit b > b_debit b
        then \<lparr> row_ledger = ledger, row_debit = 0, row_credit = fsub (b_credit b) (b_debit b) \<rparr>
        else \<lparr> row_ledger = ledger, row_debit = 0, row_credit = 0 \<rparr>)"

definition trial_rows_fp :: "Balances \<Rightarrow> TrialBalanceRow list" where
  "trial_rows_fp balances =
     filter (\<lambda>item. row_debit item > 0 \<or> row_credit item > 0) (map net_row_fp balances)"

definition trial_totals_fp :: "TrialBalanceRow list \<Rightarrow> TrialBalanceTotals" where
  "trial_totals_fp result =
     foldl (\<lambda>acc curr. \<lparr> tot_debit = fadd (tot_debit acc) (row_debit curr),
                          tot_credit = fadd (tot_credit acc) (row_credit curr) \<rparr>)
       \<lparr> tot_debit = 0, tot_credit = 0 \<rparr> result"

definition trialBalanceData_fp ::
  "ReportType \<Rightarrow> Voucher list \<Rightarrow> Ledger list \<Rightarrow> js_error + TrialBalanceReport option" where
  "trialBalanceData_fp reportType vouchers ledgers =
     (if reportType \<noteq> TrialBalance then Inr None
      else bind_err
             (post_vouchers_fp vouchers (foldl (\<lambda>b l. ensureLedger (l_name l) b) [] ledgers))
             (\<lambda>balances.
                let result = trial_rows_fp balances
                in Inr (Some \<lparr> tb_result = result, tb_totals = trial_totals_fp result \<rparr>)))"

subsection \<open>Stock summary\<close>








subsection \<open>Stock valuation\<close>








subsection \<open>GSTR-1\<close>

text \<open>\<open>ledgers.reduce((acc, ledger) => { acc[ledger.name] = ledger; return acc; }, {})\<close>\<close>

definition ledgersByName :: "Ledger list \<Rightarrow> string \<Rightarrow> Ledger option" where
  "ledgersByName ledgers = foldl (\<lambda>acc ledger. acc(l_name ledger \<mapsto> ledger)) Map.empty ledgers"

definition isSales :: "Voucher \<Rightarrow> bool" where
  "isSales v = (case v of Sales _ \<Rightarrow> True | _ \<Rightarrow> False)"

text \<open>
  The key of \<open>ledgersByName[v.party]\<close>. The filters only ever see Sales vouchers; a
  kind without a \<open>party\<close> field would index with \<open>undefined\<close>, that is, with the key
  \<open>"undefined"\<close>.
\<close>

fun partyKey :: "Voucher \<Rightarrow> string" where
  "partyKey (Purchase v) = v_party v"
| "partyKey (Sales v) = v_party v"
| "partyKey (Payment v) = pr_party v"
| "partyKey (Receipt v) = pr_party v"
| "partyKey (Contra v) = ''undefined''"
| "partyKey (Journal es) = ''undefined''"

text \<open>\<open>partyLedger?.registrationType === 'Registered' && partyLedger?.gstin\<close>\<close>

definition b2b_filter :: "(string \<Rightarrow> Ledger option) \<Rightarrow> Voucher \<Rightarrow> bool" where
  "b2b_filter byName v =
     (case byName (partyKey v) of
        None \<Rightarrow> False
      | Some partyLedger \<Rightarrow>
          l_registrationType partyLedger = ''Registered'' \<and> l_gstin partyLedger \<noteq> [])"

text \<open>
  \<open>!partyLedger || partyLedger.registrationType !== 'Registered' || !partyLedger.gstin\<close>
\<close>

definition b2c_filter :: "(string \<Rightarrow> Ledger option) \<Rightarrow> Voucher \<Rightarrow> bool" where
  "b2c_filter byName v =
     (case byName (partyKey v) of
        None \<Rightarrow> True
      | Some partyLedger \<Rightarrow>
          l_registrationType partyLedger \<noteq> ''Registered'' \<or> l_gstin partyLedger = [])"

record Gstr1 =
  b2b :: "Voucher list"
  b2c :: "Voucher list"

definition gstr1Data :: "ReportType \<Rightarrow> Voucher list \<Rightarrow> Ledger list \<Rightarrow> Gstr1 option" where
  "gstr1Data reportType vouchers ledgers =
     (if reportType \<noteq> GSTR1 then None
      else let salesVouchers = filter isSales vouchers
           in Some \<lparr> b2b = filter (b2b_filter (ledgersByName ledgers)) salesVouchers,
                     b2c = filter (b2c_filter (ledgersByName ledgers)) salesVouchers \<rparr>)"

section \<open>Vocabulary of the statements\<close>


text \<open>The sum of \<open>quantity * rate\<close> over line items.\<close>

definition line_amounts :: "ExtractedLineItem list \<Rightarrow> number" where
  "line_amounts xs = sum_list (map (\<lambda>i. quantity i * rate i) xs)"

text \<open>The sum over line items of half the tax at the rate of the recalculation path.\<close>

definition half_taxes :: "StockItem list \<Rightarrow> ExtractedLineItem list \<Rightarrow> number" where
  "half_taxes stockItems xs =
     sum_list (map (\<lambda>i. quantity i * rate i * (recalc_gstRate stockItems i / 100) / 2) xs)"

text \<open>
  The b2b condition in the words of the specification: some ledger of the master
  list matches the party's name case-insensitively, is registered and has a gstin.
\<close>

definition spec_b2b :: "Ledger list \<Rightarrow> SalesPurchaseVoucher \<Rightarrow> bool" where
  "spec_b2b ledgers sv =
     (\<exists>l \<in> set ledgers. toLowerCase (l_name l) = toLowerCase (v_party sv) \<and>
        l_registrationType l = ''Registered'' \<and> l_gstin l \<noteq> [])"

text \<open>The Sales vouchers of a list, in order, by their constructor.\<close>

fun sales_of :: "Voucher list \<Rightarrow> SalesPurchaseVoucher list" where
  "sales_of [] = []"
| "sales_of (Sales sv # vs) = sv # sales_of vs"
| "sales_of (v # vs) = sales_of vs"

text \<open>
  The excess of the debits over the credits in a table of balances, and of the entries
  that a journal voucher posts (those with a ledger name).
\<close>

definition net :: "Balances \<Rightarrow> number" where
  "net balances = sum_list (map (\<lambda>entry. b_debit (snd entry) - b_credit (snd entry)) balances)"

definition journal_net :: "JournalEntry list \<Rightarrow> number" where
  "journal_net es =
     sum_list (map je_debit (filter (\<lambda>e. je_ledger e \<noteq> []) es))
     - sum_list (map je_credit (filter (\<lambda>e. je_ledger e \<noteq> []) es))"

text \<open>
  A voucher whose postings balance: the total of a Purchase or Sales voucher is its
  taxable amount plus the tax that is posted for it (IGST when inter-state, CGST and
  SGST otherwise), and the posted entries of a journal have equal debit and credit sums.
  Payments, receipts and contras post one amount to both sides.
\<close>

fun postings_balance :: "Voucher \<Rightarrow> bool" where
  "postings_balance (Purchase v) =
     (v_total v = v_totalTaxableAmount v
        + (if v_isInterState v then v_totalIgst v else v_totalCgst v + v_totalSgst v))"
| "postings_balance (Sales v) =
     (v_total v = v_totalTaxableAmount v
        + (if v_isInterState v then v_totalIgst v else v_totalCgst v + v_totalSgst v))"
| "postings_balance (Journal es) =
     (sum_list (map je_debit (filter (\<lambda>e. je_ledger e \<noteq> []) es)) =
      sum_list (map je_credit (filter (\<lambda>e. je_ledger e \<noteq> []) es)))"
| "postings_balance _ = True"

text \<open>
  A voucher that names the ledgers it posts to. A posting to a ledger with an empty
  name raises, since \<open>ensureLedger\<close> does not create it.
\<close>

fun names_given :: "Voucher \<Rightarrow> bool" where
  "names_given (Purchase v) = (v_party v \<noteq> [])"
| "names_given (Sales v) = (v_party v \<noteq> [])"
| "names_given (Payment v) = (pr_party v \<noteq> [] \<and> pr_account v \<noteq> [])"
| "names_given (Receipt v) = (pr_party v \<noteq> [] \<and> pr_account v \<noteq> [])"
| "names_given (Contra v) = (c_fromAccount v \<noteq> [] \<and> c_toAccount v \<noteq> [])"
| "names_given (Journal es) = True"







text \<open>The message of the error thrown when the retries are used up.\<close>

definition retry_message :: string where
  "retry_message = ''Failed to extract invoice data after multiple retries.''"

text \<open>The file at a position has reached a final status.\<close>

definition done_at :: "MassUploadFile list \<Rightarrow> nat \<Rightarrow> bool" where
  "done_at fs i = (f_status (fs ! i) = Success \<or> f_status (fs ! i) = Error)"

text \<open>
  The postings of a voucher in the order in which the \<open>switch\<close> makes them: a call of
  \<open>ensureLedger\<close>, an addition to the \<open>debit\<close> of a ledger, an addition to its
  \<open>credit\<close>. \<open>run\<close> makes a list of postings on a table of balances in exact
  arithmetic, \<open>run_fp\<close> in doubles.
\<close>

datatype LedgerOp = Ensure string | Debit string number | Credit string number

fun entry_ops :: "JournalEntry \<Rightarrow> LedgerOp list" where
  "entry_ops e =
     Ensure (je_ledger e) #
     (if je_ledger e \<noteq> [] then [Debit (je_ledger e) (je_debit e), Credit (je_ledger e) (je_credit e)]
      else [])"

fun ops :: "Voucher \<Rightarrow> LedgerOp list" where
  "ops (Purchase v) =
     [Ensure (v_party v), Ensure ''Purchases'', Ensure ''IGST'', Ensure ''CGST'', Ensure ''SGST'',
      Credit (v_party v) (v_total v), Debit ''Purchases'' (v_totalTaxableAmount v)] @
     (if v_isInterState v then [Debit ''IGST'' (v_totalIgst v)]
      else [Debit ''CGST'' (v_totalCgst v), Debit ''SGST'' (v_totalSgst v)])"
| "ops (Sales v) =
     [Ensure (v_party v), Ensure ''Sales'', Ensure ''IGST'', Ensure ''CGST'', Ensure ''SGST'',
      Debit (v_party v) (v_total v), Credit ''Sales'' (v_totalTaxableAmount v)] @
     (if v_isInterState v then [Credit ''IGST'' (v_totalIgst v)]
      else [Credit ''CGST'' (v_totalCgst v), Credit ''SGST'' (v_totalSgst v)])"
| "ops (Payment v) =
     [Ensure (pr_party v), Ensure (pr_account v),
      Debit (pr_party v) (pr_amount v), Credit (pr_account v) (pr_amount v)]"
| "ops (Receipt v) =
     [Ensure (pr_party v), Ensure (pr_account v),
      Credit (pr_party v) (pr_amount v), Debit (pr_account v) (pr_amount v)]"
| "ops (Contra v) =
     [Ensure (c_fromAccount v), Ensure (c_toAccount v),
      Credit (c_fromAccount v) (c_amount v), Debit (c_toAccount v) (c_amount v)]"
| "ops (Journal es) = concat (map entry_ops es)"

fun step :: "LedgerOp \<Rightarrow> Balances \<Rightarrow> js_error + Balances" where
  "step (Ensure k) b = Inr (ensureLedger k b)"
| "step (Debit k x) b = add_debit k x b"
| "step (Credit k x) b = add_credit k x b"

fun step_fp :: "LedgerOp \<Rightarrow> Balances \<Rightarrow> js_error + Balances" where
  "step_fp (Ensure k) b = Inr (ensureLedger k b)"
| "step_fp (Debit k x) b = add_debit_fp k x b"
| "step_fp (Credit k x) b = add_credit_fp k x b"

fun run :: "LedgerOp list \<Rightarrow> Balances \<Rightarrow> js_error + Balances" where
  "run [] b = Inr b"
| "run (a # rest) b = bind_err (step a b) (run rest)"

fun run_fp :: "LedgerOp list \<Rightarrow> Balances \<Rightarrow> js_error + Balances" where
  "run_fp [] b = Inr b"
| "run_fp (a # rest) b = bind_err (step_fp a b) (run_fp rest)"

text \<open>
  A whole number; the amount of a posting, and what it adds to the debit and to the
  credit of a given ledger; the postings of a list of vouchers, the sums they post
  to the debit and to the credit of a ledger, and the sum of the absolute amounts of
  a list of postings.
\<close>

definition whole_number :: "number \<Rightarrow> bool" where
  "whole_number x = (x = of_int \<lfloor>x\<rfloor>)"

fun amount :: "LedgerOp \<Rightarrow> number" where
  "amount (Ensure k) = 0"
| "amount (Debit k x) = x"
| "amount (Credit k x) = x"

fun op_debit :: "string \<Rightarrow> LedgerOp \<Rightarrow> number" where
  "op_debit k (Debit k' x) = (if k' = k then x else 0)"
| "op_debit k _ = 0"

fun op_credit :: "string \<Rightarrow> LedgerOp \<Rightarrow> number" where
  "op_credit k (Credit k' x) = (if k' = k then x else 0)"
| "op_credit k _ = 0"

definition postings :: "Voucher list \<Rightarrow> LedgerOp list" where
  "postings vouchers = concat (map ops vouchers)"

definition posted_debit :: "string \<Rightarrow> Voucher list \<Rightarrow> number" where
  "posted_debit k vouchers = sum_list (map (op_debit k) (postings vouchers))"

definition posted_credit :: "string \<Rightarrow> Voucher list \<Rightarrow> number" where
  "posted_credit k vouchers = sum_list (map (op_credit k) (postings vouchers))"

definition volume :: "LedgerOp list \<Rightarrow> number" where
  "volume os = sum_list (map (\<lambda>a. \<bar>amount a\<bar>) os)"

text \<open>
  A table of balances that holds whole numbers only, the sum of the absolute amounts
  in a table, and the balance kept under a name (zero on both sides when there is none).
\<close>

definition whole :: "Balances \<Rightarrow> bool" where
  "whole b = (\<forall>e \<in> set b. b_debit (snd e) \<in> \<int> \<and> b_credit (snd e) \<in> \<int>)"

definition weight :: "Balances \<Rightarrow> number" where
  "weight b = sum_list (map (\<lambda>e. \<bar>b_debit (snd e)\<bar> + \<bar>b_credit (snd e)\<bar>) b)"

definition bal :: "Balances \<Rightarrow> string \<Rightarrow> Balance" where
  "bal b k = (case map_of b k of None \<Rightarrow> \<lparr> b_debit = 0, b_credit = 0 \<rparr> | Some v \<Rightarrow> v)"

section \<open>Example data\<close>

text \<open>A small company in Maharashtra with two suppliers and three stock items.\<close>

definition ex_api :: DateApi where
  "ex_api =
     \<lparr> parseDate = (\<lambda>s. if s = ''2024-04-01'' then Some 1711929600000 else None),
       toISOString = (\<lambda>t. ''2024-04-01T00:00:00.000Z''),
       nowTime = 1711929600000 \<rparr>"

definition ex_ledgers :: "Ledger list" where
  "ex_ledgers =
     [\<lparr> l_name = ''Acme Traders'', l_state = ''Maharashtra'',
         l_registrationType = ''Registered'', l_gstin = ''27AAACA1111A1Z5'' \<rparr>,
      \<lparr> l_name = ''Delhi Supplies'', l_state = ''Delhi'',
         l_registrationType = ''Registered'', l_gstin = ''07AAACD2222B1Z3'' \<rparr>]"

definition ex_company :: CompanyDetails where
  "ex_company = \<lparr> cd_state = ''Maharashtra'' \<rparr>"

definition ex_stockItems :: "StockItem list" where
  "ex_stockItems =
     [\<lparr> si_name = ''Widget'', si_gstRate = 18 \<rparr>,
      \<lparr> si_name = ''Rice'', si_gstRate = 0 \<rparr>,
      \<lparr> si_name = ''Bolt'', si_gstRate = 12 \<rparr>]"

definition ex_data :: ExtractedInvoiceData where
  "ex_data =
     \<lparr> sellerName = ''ACME traders'', invoiceNumber = ''INV-7'', invoiceDate = ''2024-04-01'',
       subtotal = 200, cgstAmount = 18, sgstAmount = 18, totalAmount = 236,
       lineItems = [\<lparr> itemDescription = ''widget'', hsnCode = ''8479'', quantity = 2,
                       rate = 100 \<rparr>] \<rparr>"

definition ex_upload :: MassUploadFile where
  "ex_upload =
     \<lparr> f_id = ''inv7.png-1'',
       f_file = \<lparr> file_name = ''inv7.png'', file_lastModified = 1, file_mimeType = ''image/png'' \<rparr>,
       f_status = Success, f_extractedData = Some ex_data, f_error = None \<rparr>"

text \<open>The voucher the save path makes from \<open>ex_upload\<close>.\<close>

definition ex_voucher :: SalesPurchaseVoucher where
  "ex_voucher =
     \<lparr> v_id = [], v_date = ''2024-04-01'', v_invoiceNo = ''INV-7'', v_party = ''ACME traders'',
       v_isInterState = False,
       v_items = [\<lparr> vi_name = ''widget'', vi_qty = 2, vi_rate = 100, vi_taxableAmount = 200,
                     vi_cgstAmount = 18, vi_sgstAmount = 18, vi_igstAmount = 0,
                     vi_totalAmount = 236 \<rparr>],
       v_totalTaxableAmount = 200, v_totalCgst = 18, v_totalSgst = 18, v_totalIgst = 0,
       v_total = 236, v_narration = ''Auto-imported from inv7.png'' \<rparr>"


definition ex_rice_item :: ExtractedLineItem where
  "ex_rice_item = \<lparr> itemDescription = ''rice'', hsnCode = ''1006'', quantity = 2, rate = 100 \<rparr>"

definition ex_upload_of :: "ExtractedInvoiceData \<Rightarrow> MassUploadFile" where
  "ex_upload_of d = ex_upload\<lparr> f_extractedData := Some d \<rparr>"


text \<open>An invoice of the supplier in Delhi, before and after its quantity is edited to 3.\<close>

definition ex_delhi_data :: ExtractedInvoiceData where
  "ex_delhi_data = ex_data\<lparr> sellerName := ''Delhi Supplies'' \<rparr>"

definition ex_delhi_edited :: ExtractedInvoiceData where
  "ex_delhi_edited =
     \<lparr> sellerName = ''Delhi Supplies'', invoiceNumber = ''INV-7'', invoiceDate = ''2024-04-01'',
       subtotal = 300, cgstAmount = 0, sgstAmount = 0, totalAmount = 336,
       lineItems = [\<lparr> itemDescription = ''widget'', hsnCode = ''8479'', quantity = 3,
                       rate = 100 \<rparr>] \<rparr>"

text \<open>
  Two sales to the first supplier: one names the party as another document spelled
  it, one as the ledger does.
\<close>

definition ex_sale :: SalesPurchaseVoucher where
  "ex_sale = ex_voucher\<lparr> v_invoiceNo := ''S-1'', v_narration := [] \<rparr>"

definition ex_sale_exact :: SalesPurchaseVoucher where
  "ex_sale_exact = ex_sale\<lparr> v_party := ''Acme Traders'' \<rparr>"







text \<open>
  A service that fails its first three calls and then succeeds, two pending files, and
  the state before any call.
\<close>

definition ex_service :: ExtractionService where
  "ex_service =
     \<lparr> fileToBase64 = (\<lambda>fl. Inr ''aW52b2ljZQ==''),
       generateAndParse = (\<lambda>n fl b. if n < 3 then Inl (JsError ''503 Service Unavailable'')
                                     else Inr ex_data) \<rparr>"

definition ex_pending_a :: MassUploadFile where
  "ex_pending_a =
     \<lparr> f_id = ''a.png-1'',
       f_file = \<lparr> file_name = ''a.png'', file_lastModified = 1, file_mimeType = ''image/png'' \<rparr>,
       f_status = Pending, f_extractedData = None, f_error = None \<rparr>"

definition ex_pending_b :: MassUploadFile where
  "ex_pending_b =
     \<lparr> f_id = ''b.png-2'',
       f_file = \<lparr> file_name = ''b.png'', file_lastModified = 2, file_mimeType = ''image/png'' \<rparr>,
       f_status = Pending, f_extractedData = None, f_error = None \<rparr>"

definition ex_world :: World where
  "ex_world = \<lparr> calls = 0, sleeps = [] \<rparr>"

text \<open>
  One unit of an unknown item at the price 1, and the voucher that the save path makes
  of it in doubles: the halves of the tax are the double written 0.09, the total is the
  double written 1.18.
\<close>

definition ex_unit_item :: ExtractedLineItem where
  "ex_unit_item = \<lparr> itemDescription = ''Gasket'', hsnCode = [], quantity = 1, rate = 1 \<rparr>"

definition ex_unit_voucher :: SalesPurchaseVoucher where
  "ex_unit_voucher =
     ex_voucher\<lparr> v_items :=
         [\<lparr> vi_name = ''Gasket'', vi_qty = 1, vi_rate = 1, vi_taxableAmount = 1,
            vi_cgstAmount = 3242591731706757 / 36028797018963968,
            vi_sgstAmount = 3242591731706757 / 36028797018963968,
            vi_igstAmount = 0,
            vi_totalAmount = 5314247560297185 / 4503599627370496 \<rparr>],
       v_totalTaxableAmount := 1,
       v_totalCgst := 3242591731706757 / 36028797018963968,
       v_totalSgst := 3242591731706757 / 36028797018963968,
       v_total := 5314247560297185 / 4503599627370496 \<rparr>"

text \<open>
  Three payments in cash of the doubles written 0.3, 0.2 and 0.1, to three parties
  that the master list names in the opposite order.
\<close>

definition ex_tenths :: "Voucher list" where
  "ex_tenths =
     [Payment \<lparr> pr_party = ''Asha'', pr_account = ''Cash'', pr_amount = round_double (3 / 10) \<rparr>,
      Payment \<lparr> pr_party = ''Bala'', pr_account = ''Cash'', pr_amount = round_double (2 / 10) \<rparr>,
      Payment \<lparr> pr_party = ''Chitra'', pr_account = ''Cash'', pr_amount = round_double (1 / 10) \<rparr>]"

definition ex_tenths_ledgers :: "Ledger list" where
  "ex_tenths_ledgers =
     map (\<lambda>n. \<lparr> l_name = n, l_state = ''Maharashtra'', l_registrationType = ''Unregistered'',
                l_gstin = [] \<rparr>) [''Chitra'', ''Bala'', ''Asha'', ''Cash'']"

section \<open>Properties of the save path\<close>

lemmas lower_defs = toLowerCase_def lower_char_def

lemmas ex_defs = ex_api_def ex_ledgers_def ex_company_def ex_stockItems_def ex_data_def
  ex_upload_def ex_voucher_def

lemmas save_defs = handleSave_voucher_def handleSave_item_def save_gstRate_def findStockItem_def
  isInterStateOf_def findPartyLedger_def voucherDate_def split_T_0_def totals_of_def
  totals_step_def


lemma bind_err_Inr: "bind_err m f = Inr y \<Longrightarrow> \<exists>x. m = Inr x \<and> f x = Inr y"
  by (cases m) auto

lemma foldl_totals_step:
  "foldl totals_step acc its =
     \<lparr> totalTaxableAmount = totalTaxableAmount acc + sum_list (map vi_taxableAmount its),
       totalCgst = totalCgst acc + sum_list (map vi_cgstAmount its),
       totalSgst = totalSgst acc + sum_list (map vi_sgstAmount its),
       totalIgst = totalIgst acc + sum_list (map vi_igstAmount its),
       grandTotal = grandTotal acc + sum_list (map vi_totalAmount its) \<rparr>"
  by (induction its arbitrary: acc) (simp_all add: totals_step_def)

lemma totals_of_sums:
  "totals_of its =
     \<lparr> totalTaxableAmount = sum_list (map vi_taxableAmount its),
       totalCgst = sum_list (map vi_cgstAmount its),
       totalSgst = sum_list (map vi_sgstAmount its),
       totalIgst = sum_list (map vi_igstAmount its),
       grandTotal = sum_list (map vi_totalAmount its) \<rparr>"
  by (simp add: totals_of_def foldl_totals_step)

lemma handleSave_item_total:
  "vi_totalAmount (handleSave_item stockItems isInter item) =
     vi_taxableAmount (handleSave_item stockItems isInter item)
     + vi_cgstAmount (handleSave_item stockItems isInter item)
     + vi_sgstAmount (handleSave_item stockItems isInter item)
     + vi_igstAmount (handleSave_item stockItems isInter item)"
  by (simp add: handleSave_item_def Let_def)

lemma sum_list_item_totals:
  "sum_list (map vi_totalAmount (map (handleSave_item stockItems isInter) xs)) =
     sum_list (map vi_taxableAmount (map (handleSave_item stockItems isInter) xs))
     + sum_list (map vi_cgstAmount (map (handleSave_item stockItems isInter) xs))
     + sum_list (map vi_sgstAmount (map (handleSave_item stockItems isInter) xs))
     + sum_list (map vi_igstAmount (map (handleSave_item stockItems isInter) xs))"
proof (induction xs)
  case Nil
  show ?case by simp
next
  case (Cons x xs)
  show ?case
    using Cons.IH handleSave_item_total [of stockItems isInter x] by simp
qed

lemma handleSave_voucher_Inr:
  assumes "handleSave_voucher api ledgers stockItems companyDetails fl data = Inr v"
  shows "v_items v = map (handleSave_item stockItems (isInterStateOf ledgers companyDetails (sellerName data))) (lineItems data)"
    and "v_isInterState v = isInterStateOf ledgers companyDetails (sellerName data)"
    and "v_totalTaxableAmount v = sum_list (map vi_taxableAmount (v_items v))"
    and "v_totalCgst v = sum_list (map vi_cgstAmount (v_items v))"
    and "v_totalSgst v = sum_list (map vi_sgstAmount (v_items v))"
    and "v_totalIgst v = sum_list (map vi_igstAmount (v_items v))"
    and "v_total v = sum_list (map vi_totalAmount (v_items v))"
  using assms
  by (auto simp: handleSave_voucher_def Let_def totals_of_sums dest!: bind_err_Inr)

lemma handleSave_elems:
  "handleSave api ledgers stockItems companyDetails files = Inr vs \<Longrightarrow> x \<in> set vs \<Longrightarrow>
   \<exists>f data v. f \<in> set files \<and> f_status f = Success \<and> f_extractedData f = Some data \<and>
     handleSave_voucher api ledgers stockItems companyDetails (f_file f) data = Inr v \<and>
     x = Purchase v"
proof (induction files arbitrary: vs)
  case Nil
  then show ?case by simp
next
  case (Cons f fs)
  show ?case
  proof (cases "f_status f = Success \<and> f_extractedData f \<noteq> None")
    case True
    then obtain data where d: "f_status f = Success" "f_extractedData f = Some data" by auto
    from Cons.prems(1) d obtain v vs' where
      v: "handleSave_voucher api ledgers stockItems companyDetails (f_file f) data = Inr v"
      and vs': "handleSave api ledgers stockItems companyDetails fs = Inr vs'"
      and vs: "vs = Purchase v # vs'"
      by (auto dest!: bind_err_Inr)
    show ?thesis
    proof (cases "x = Purchase v")
      case True
      with d v show ?thesis by auto
    next
      case False
      with Cons.prems(2) vs have "x \<in> set vs'" by simp
      from Cons.IH [OF vs' this] show ?thesis by auto
    qed
  next
    case False
    then have "handleSave api ledgers stockItems companyDetails (f # fs) =
               handleSave api ledgers stockItems companyDetails fs"
      by (auto split: Status.splits option.splits)
    with Cons.prems(1) have "handleSave api ledgers stockItems companyDetails fs = Inr vs" by simp
    from Cons.IH [OF this Cons.prems(2)] show ?thesis by auto
  qed
qed

text \<open>
  Without rounding, the total of a voucher of the save path is the sum of its four
  voucher-level amounts, each of which is the sum of the item-level fields.
\<close>

lemma handleSave_exact_total_closure:
  assumes "handleSave api ledgers stockItems companyDetails files = Inr vs"
    and "x \<in> set vs"
  shows "\<exists>v. x = Purchase v \<and>
           v_total v = v_totalTaxableAmount v + v_totalCgst v + v_totalSgst v + v_totalIgst v \<and>
           v_totalTaxableAmount v = sum_list (map vi_taxableAmount (v_items v)) \<and>
           v_totalCgst v = sum_list (map vi_cgstAmount (v_items v)) \<and>
           v_totalSgst v = sum_list (map vi_sgstAmount (v_items v)) \<and>
           v_totalIgst v = sum_list (map vi_igstAmount (v_items v))"
proof -
  from handleSave_elems [OF assms] obtain f :: MassUploadFile and data v where
    v: "handleSave_voucher api ledgers stockItems companyDetails (f_file f) data = Inr v"
    and x: "x = Purchase v" by auto
  note s = handleSave_voucher_Inr [OF v]
  have "v_total v = v_totalTaxableAmount v + v_totalCgst v + v_totalSgst v + v_totalIgst v"
    unfolding s(3,4,5,6,7) unfolding s(1) by (rule sum_list_item_totals)
  with x s(3,4,5,6) show ?thesis by blast
qed





text \<open>
  Claim C5 (the rate of a matched stock item), at a stock item recorded with rate 0:
  the line item \<open>rice\<close> matches the stock item \<open>Rice\<close>, the save path taxes it at 18
  percent where the recalculation path uses the recorded 0.
\<close>

theorem save_gstRate_zero_rated_item:
  "findStockItem ex_stockItems ex_rice_item = Some \<lparr> si_name = ''Rice'', si_gstRate = 0 \<rparr> \<and>
   save_gstRate ex_stockItems ex_rice_item = 18 \<and>
   recalc_gstRate ex_stockItems ex_rice_item = 0 \<and>
   handleSave_item ex_stockItems False ex_rice_item =
     \<lparr> vi_name = ''rice'', vi_qty = 2, vi_rate = 100, vi_taxableAmount = 200,
       vi_cgstAmount = 18, vi_sgstAmount = 18, vi_igstAmount = 0, vi_totalAmount = 236 \<rparr>"
  by (simp add: ex_defs ex_rice_item_def save_defs recalc_gstRate_def lower_defs)

lemma handleSave_voucher_Inl:
  "handleSave_voucher api ledgers stockItems companyDetails fl data = Inl e \<Longrightarrow> e = RangeError"
  by (auto simp: handleSave_voucher_def voucherDate_def Let_def split: option.splits)

lemma handleSave_voucher_invalid_date:
  "parseDate api (invoiceDate data) = None \<Longrightarrow>
   handleSave_voucher api ledgers stockItems companyDetails fl data = Inl RangeError"
  by (simp add: handleSave_voucher_def voucherDate_def Let_def)

lemma handleSave_voucher_valid_date:
  "parseDate api (invoiceDate data) \<noteq> None \<Longrightarrow>
   \<exists>v. handleSave_voucher api ledgers stockItems companyDetails fl data = Inr v"
  by (auto simp: handleSave_voucher_def voucherDate_def Let_def)

lemma bind_err_Inl: "bind_err m f = Inl e \<Longrightarrow> m = Inl e \<or> (\<exists>x. m = Inr x \<and> f x = Inl e)"
  by (cases m) auto

lemma handleSave_Inl:
  "handleSave api ledgers stockItems companyDetails files = Inl e \<Longrightarrow> e = RangeError"
proof (induction files arbitrary: e)
  case Nil
  then show ?case by simp
next
  case (Cons f fs)
  from Cons.prems Cons.IH show ?case
    by (auto split: Status.splits option.splits
             dest: handleSave_voucher_Inl dest!: bind_err_Inl)
qed

text \<open>
  Claim C2 (totality of the save path), where it fails: if any file that takes part
  has an \<open>invoiceDate\<close> that the platform does not parse, \<open>handleSave\<close> leaves with a
  \<open>RangeError\<close> and hands nothing to \<open>onComplete\<close>; the fallback to the current date
  is never reached.
\<close>

theorem handleSave_invalid_date_raises:
  assumes "f \<in> set files"
    and "f_status f = Success"
    and "f_extractedData f = Some data"
    and "parseDate api (invoiceDate data) = None"
  shows "handleSave api ledgers stockItems companyDetails files = Inl RangeError"
  using assms(1)
proof (induction files)
  case Nil
  then show ?case by simp
next
  case (Cons g gs)
  show ?case
  proof (cases "g = f")
    case True
    with assms(2,3,4) show ?thesis
      by (simp add: handleSave_voucher_invalid_date)
  next
    case False
    with Cons have rest: "handleSave api ledgers stockItems companyDetails gs = Inl RangeError"
      by simp
    show ?thesis
    proof (cases "handleSave api ledgers stockItems companyDetails (g # gs)")
      case (Inl e)
      then show ?thesis using handleSave_Inl by blast
    next
      case (Inr vs)
      with rest show ?thesis
        by (auto split: Status.splits option.splits dest!: bind_err_Inr)
    qed
  qed
qed

theorem handleSave_invalid_date_raises_witness:
  "parseDate ex_api (invoiceDate (ex_data\<lparr> invoiceDate := [] \<rparr>)) = None \<and>
   handleSave ex_api ex_ledgers ex_stockItems ex_company
     [ex_upload, ex_upload_of (ex_data\<lparr> invoiceDate := [] \<rparr>)] = Inl RangeError"
  using handleSave_invalid_date_raises
    [of "ex_upload_of (ex_data\<lparr> invoiceDate := [] \<rparr>)"
        "[ex_upload, ex_upload_of (ex_data\<lparr> invoiceDate := [] \<rparr>)]"
        "ex_data\<lparr> invoiceDate := [] \<rparr>" ex_api ex_ledgers ex_stockItems ex_company]
  by (simp add: ex_upload_of_def ex_upload_def ex_api_def)

section \<open>Properties of the save path in doubles\<close>

lemma foldl_totals_step_fp:
  "foldl totals_step_fp acc its =
     \<lparr> totalTaxableAmount = foldl fadd (totalTaxableAmount acc) (map vi_taxableAmount its),
       totalCgst = foldl fadd (totalCgst acc) (map vi_cgstAmount its),
       totalSgst = foldl fadd (totalSgst acc) (map vi_sgstAmount its),
       totalIgst = foldl fadd (totalIgst acc) (map vi_igstAmount its),
       grandTotal = foldl fadd (grandTotal acc) (map vi_totalAmount its) \<rparr>"
  by (induction its arbitrary: acc) (simp_all add: totals_step_fp_def)

lemma totals_of_fp_sums:
  "totals_of_fp its =
     \<lparr> totalTaxableAmount = foldl fadd 0 (map vi_taxableAmount its),
       totalCgst = foldl fadd 0 (map vi_cgstAmount its),
       totalSgst = foldl fadd 0 (map vi_sgstAmount its),
       totalIgst = foldl fadd 0 (map vi_igstAmount its),
       grandTotal = foldl fadd 0 (map vi_totalAmount its) \<rparr>"
  by (simp add: totals_of_fp_def foldl_totals_step_fp)

lemma handleSave_voucher_fp_Inr:
  assumes "handleSave_voucher_fp api ledgers stockItems companyDetails fl data = Inr v"
  shows "v_items v = map (handleSave_item_fp stockItems (v_isInterState v)) (lineItems data)"
    and "v_totalTaxableAmount v = foldl fadd 0 (map vi_taxableAmount (v_items v))"
    and "v_totalCgst v = foldl fadd 0 (map vi_cgstAmount (v_items v))"
    and "v_totalSgst v = foldl fadd 0 (map vi_sgstAmount (v_items v))"
    and "v_totalIgst v = foldl fadd 0 (map vi_igstAmount (v_items v))"
    and "v_total v = foldl fadd 0 (map vi_totalAmount (v_items v))"
  using assms
  by (auto simp: handleSave_voucher_fp_def Let_def totals_of_fp_sums dest!: bind_err_Inr)

lemma handleSave_fp_elems:
  "handleSave_fp api ledgers stockItems companyDetails files = Inr vs \<Longrightarrow> x \<in> set vs \<Longrightarrow>
   \<exists>f data v. f \<in> set files \<and> f_status f = Success \<and> f_extractedData f = Some data \<and>
     handleSave_voucher_fp api ledgers stockItems companyDetails (f_file f) data = Inr v \<and>
     x = Purchase v"
proof (induction files arbitrary: vs)
  case Nil
  then show ?case by simp
next
  case (Cons f fs)
  show ?case
  proof (cases "f_status f = Success \<and> f_extractedData f \<noteq> None")
    case True
    then obtain data where d: "f_status f = Success" "f_extractedData f = Some data" by auto
    from Cons.prems(1) d obtain v vs' where
      v: "handleSave_voucher_fp api ledgers stockItems companyDetails (f_file f) data = Inr v"
      and vs': "handleSave_fp api ledgers stockItems companyDetails fs = Inr vs'"
      and vs: "vs = Purchase v # vs'"
      by (auto dest!: bind_err_Inr)
    show ?thesis
    proof (cases "x = Purchase v")
      case True
      with d v show ?thesis by auto
    next
      case False
      with Cons.prems(2) vs have "x \<in> set vs'" by simp
      from Cons.IH [OF vs' this] show ?thesis by auto
    qed
  next
    case False
    then have "handleSave_fp api ledgers stockItems companyDetails (f # fs) =
               handleSave_fp api ledgers stockItems companyDetails fs"
      by (auto split: Status.splits option.splits)
    with Cons.prems(1) have "handleSave_fp api ledgers stockItems companyDetails fs = Inr vs"
      by simp
    from Cons.IH [OF this Cons.prems(2)] show ?thesis by auto
  qed
qed

lemma handleSave_item_fp_tax:
  "\<exists>tax. vi_totalAmount (handleSave_item_fp stockItems isInter li) =
            fadd (vi_taxableAmount (handleSave_item_fp stockItems isInter li)) tax \<and>
         vi_cgstAmount (handleSave_item_fp stockItems isInter li) =
            (if isInter then 0 else fdiv tax 2) \<and>
         vi_sgstAmount (handleSave_item_fp stockItems isInter li) =
            (if isInter then 0 else fdiv tax 2) \<and>
         vi_igstAmount (handleSave_item_fp stockItems isInter li) =
            (if isInter then tax else 0)"
  by (rule exI [of _ "fmul (fmul (quantity li) (rate li)) (fdiv (save_gstRate stockItems li) 100)"])
     (simp add: handleSave_item_fp_def Let_def)

text \<open>
  Claim C4 (voucher total closure), as amended. Every voucher that \<open>handleSave\<close> hands
  to \<open>onComplete\<close> is a Purchase voucher whose \<open>totalTaxableAmount\<close>, \<open>totalCgst\<close>,
  \<open>totalSgst\<close> and \<open>totalIgst\<close> are the sums of the corresponding item-level fields,
  added in doubles from 0 in the order of the items; its \<open>total\<close> is the like sum of the
  items' \<open>totalAmount\<close>, and each item's \<open>totalAmount\<close> is its \<open>taxableAmount\<close> plus the
  tax of which \<open>cgstAmount\<close> and \<open>sgstAmount\<close> are the halves, or \<open>igstAmount\<close> the whole.
\<close>

theorem handleSave_fp_totals:
  assumes "handleSave_fp api ledgers stockItems companyDetails files = Inr vs"
    and "x \<in> set vs"
  shows "\<exists>v. x = Purchase v \<and>
           v_totalTaxableAmount v = foldl fadd 0 (map vi_taxableAmount (v_items v)) \<and>
           v_totalCgst v = foldl fadd 0 (map vi_cgstAmount (v_items v)) \<and>
           v_totalSgst v = foldl fadd 0 (map vi_sgstAmount (v_items v)) \<and>
           v_totalIgst v = foldl fadd 0 (map vi_igstAmount (v_items v)) \<and>
           v_total v = foldl fadd 0 (map vi_totalAmount (v_items v)) \<and>
           (\<forall>it \<in> set (v_items v).
              \<exists>tax. vi_totalAmount it = fadd (vi_taxableAmount it) tax \<and>
                    vi_cgstAmount it = (if v_isInterState v then 0 else fdiv tax 2) \<and>
                    vi_sgstAmount it = (if v_isInterState v then 0 else fdiv tax 2) \<and>
                    vi_igstAmount it = (if v_isInterState v then tax else 0))"
proof -
  from handleSave_fp_elems [OF assms] obtain f :: MassUploadFile and data v where
    v: "handleSave_voucher_fp api ledgers stockItems companyDetails (f_file f) data = Inr v"
    and x: "x = Purchase v" by auto
  note s = handleSave_voucher_fp_Inr [OF v]
  have "\<forall>it \<in> set (v_items v).
          \<exists>tax. vi_totalAmount it = fadd (vi_taxableAmount it) tax \<and>
                vi_cgstAmount it = (if v_isInterState v then 0 else fdiv tax 2) \<and>
                vi_sgstAmount it = (if v_isInterState v then 0 else fdiv tax 2) \<and>
                vi_igstAmount it = (if v_isInterState v then tax else 0)"
    unfolding s(1) using handleSave_item_fp_tax [of stockItems "v_isInterState v"] by auto
  with x s(2,3,4,5,6) show ?thesis by blast
qed

lemma ex_handleSave_fp:
  "handleSave_fp ex_api ex_ledgers ex_stockItems ex_company [ex_upload] = Inr [Purchase ex_voucher]"
  by code_simp

theorem handleSave_fp_totals_witness:
  "handleSave_fp ex_api ex_ledgers ex_stockItems ex_company [ex_upload] = Inr [Purchase ex_voucher] \<and>
   v_total ex_voucher = 236 \<and>
   foldl fadd 0 (map vi_totalAmount (v_items ex_voucher)) = 236 \<and>
   v_totalCgst ex_voucher = 18"
  using handleSave_fp_totals [OF ex_handleSave_fp, of "Purchase ex_voucher"] ex_handleSave_fp
  by (simp add: ex_voucher_def)

text \<open>
  The claim as stated equates \<open>total\<close> with the sum of the four voucher-level amounts.
  For one unit at the price 1, not in the stock list and so taxed at 18 percent, the
  total is the double written 1.18 and the sum of the four is the next double,
  written 1.1800000000000002.
\<close>

lemma ex_unit_handleSave_fp:
  "handleSave_fp ex_api ex_ledgers ex_stockItems ex_company
     [ex_upload_of (ex_data\<lparr> lineItems := [ex_unit_item] \<rparr>)] = Inr [Purchase ex_unit_voucher]"
  by code_simp

lemma ex_unit_four_sum:
  "fadd (fadd (fadd (v_totalTaxableAmount ex_unit_voucher) (v_totalCgst ex_unit_voucher))
           (v_totalSgst ex_unit_voucher)) (v_totalIgst ex_unit_voucher) =
   2657123780148593 / 2251799813685248"
  by code_simp

theorem handleSave_fp_total_closure_counterexample:
  "handleSave_fp ex_api ex_ledgers ex_stockItems ex_company
     [ex_upload_of (ex_data\<lparr> lineItems := [ex_unit_item] \<rparr>)] = Inr [Purchase ex_unit_voucher] \<and>
   v_total ex_unit_voucher = 5314247560297185 / 4503599627370496 \<and>
   fadd (fadd (fadd (v_totalTaxableAmount ex_unit_voucher) (v_totalCgst ex_unit_voucher))
           (v_totalSgst ex_unit_voucher)) (v_totalIgst ex_unit_voucher) =
     2657123780148593 / 2251799813685248 \<and>
   v_total ex_unit_voucher \<noteq>
     fadd (fadd (fadd (v_totalTaxableAmount ex_unit_voucher) (v_totalCgst ex_unit_voucher))
             (v_totalSgst ex_unit_voucher)) (v_totalIgst ex_unit_voucher)"
  unfolding ex_unit_four_sum
  using ex_unit_handleSave_fp by (simp add: ex_unit_voucher_def)

section \<open>Properties of the recalculation on edit\<close>

lemma foldl_recalc_step_inter:
  "foldl (recalc_step stockItems True) (sub, cgst, sgst) xs =
     (sub + line_amounts xs, cgst, sgst)"
  by (induction xs arbitrary: sub) (simp_all add: recalc_step_def Let_def line_amounts_def)

lemma foldl_recalc_step_intra:
  "foldl (recalc_step stockItems False) (sub, cgst, sgst) xs =
     (sub + line_amounts xs, cgst + half_taxes stockItems xs, sgst + half_taxes stockItems xs)"
  by (induction xs arbitrary: sub cgst sgst)
     (simp_all add: recalc_step_def Let_def line_amounts_def half_taxes_def)

lemma recalculateInvoiceData_eq:
  "recalculateInvoiceData ledgers stockItems companyDetails data seller =
     data\<lparr> subtotal := line_amounts (lineItems data),
            cgstAmount := (if isInterStateOf ledgers companyDetails seller then 0
                           else half_taxes stockItems (lineItems data)),
            sgstAmount := (if isInterStateOf ledgers companyDetails seller then 0
                           else half_taxes stockItems (lineItems data)),
            totalAmount := line_amounts (lineItems data) + cgstAmount data + sgstAmount data \<rparr>"
proof (cases "isInterStateOf ledgers companyDetails seller")
  case True
  then show ?thesis
    by (simp add: recalculateInvoiceData_def Let_def foldl_recalc_step_inter)
next
  case False
  then show ?thesis
    by (simp add: recalculateInvoiceData_def Let_def foldl_recalc_step_intra)
qed

text \<open>
  Claim C9 (the total after a line-item edit). \<open>recalculateInvoiceData\<close> returns the
  recomputed subtotal, and a \<open>totalAmount\<close> that is this subtotal plus the
  \<open>cgstAmount\<close> and \<open>sgstAmount\<close> of its input, not the ones it returns; for an
  inter-state party the returned \<open>cgstAmount\<close> and \<open>sgstAmount\<close> are 0, so that no
  recomputed tax reaches any of the three. \<open>handleLineItemChange\<close> calls it on the
  edited line items with the tax fields of the record before the edit.
\<close>

theorem recalculateInvoiceData_total:
  "(let r = recalculateInvoiceData ledgers stockItems companyDetails data seller
    in subtotal r = line_amounts (lineItems data) \<and>
       totalAmount r = subtotal r + cgstAmount data + sgstAmount data \<and>
       (if isInterStateOf ledgers companyDetails seller
        then cgstAmount r = 0 \<and> sgstAmount r = 0
        else cgstAmount r = half_taxes stockItems (lineItems data) \<and>
             sgstAmount r = half_taxes stockItems (lineItems data))) \<and>
   (\<forall>itemIndex edit r.
      handleLineItemChange ledgers stockItems companyDetails data itemIndex edit = Some r \<longrightarrow>
        lineItems r = (lineItems data)[itemIndex := applyEdit edit (lineItems data ! itemIndex)] \<and>
        subtotal r = line_amounts (lineItems r) \<and>
        totalAmount r = subtotal r + cgstAmount data + sgstAmount data)"
  by (auto simp: recalculateInvoiceData_eq handleLineItemChange_def Let_def split: if_splits)

lemma ex_handleLineItemChange:
  "handleLineItemChange ex_ledgers ex_stockItems ex_company ex_delhi_data 0 (SetQuantity 3) =
     Some ex_delhi_edited"
  by (simp add: handleLineItemChange_def recalculateInvoiceData_def recalc_step_def
        recalc_gstRate_def findStockItem_def isInterStateOf_def findPartyLedger_def
        ex_delhi_data_def ex_delhi_edited_def ex_defs lower_defs)

theorem recalculateInvoiceData_total_witness:
  "isInterStateOf ex_ledgers ex_company (sellerName ex_delhi_data) \<and>
   handleLineItemChange ex_ledgers ex_stockItems ex_company ex_delhi_data 0 (SetQuantity 3) =
     Some ex_delhi_edited \<and>
   subtotal ex_delhi_edited = 300 \<and>
   cgstAmount ex_delhi_data = 18 \<and> sgstAmount ex_delhi_data = 18 \<and>
   cgstAmount ex_delhi_edited = 0 \<and> sgstAmount ex_delhi_edited = 0 \<and>
   totalAmount ex_delhi_edited = 336"
  using recalculateInvoiceData_total
    [of ex_ledgers ex_stockItems ex_company ex_delhi_data "sellerName ex_delhi_data"]
    ex_handleLineItemChange
  by (simp add: isInterStateOf_def findPartyLedger_def ex_delhi_data_def ex_delhi_edited_def
        ex_defs lower_defs)

section \<open>Properties of the GSTR-1 classification\<close>

lemma foldl_ledgersByName:
  "foldl (\<lambda>acc ledger. acc(l_name ledger \<mapsto> ledger)) m ledgers n =
     (case find (\<lambda>l. l_name l = n) (rev ledgers) of None \<Rightarrow> m n | Some l \<Rightarrow> Some l)"
  by (induction ledgers rule: rev_induct) simp_all

lemma ledgersByName_find:
  "ledgersByName ledgers n = find (\<lambda>l. l_name l = n) (rev ledgers)"
  by (simp add: ledgersByName_def foldl_ledgersByName split: option.splits)

lemma b2c_filter_not_b2b: "b2c_filter byName v = (\<not> b2b_filter byName v)"
  by (auto simp: b2c_filter_def b2b_filter_def split: option.splits)

lemma find_distinct_names:
  "distinct (map l_name ledgers) \<Longrightarrow>
   (find (\<lambda>l. l_name l = n) ledgers = Some l) = (l \<in> set ledgers \<and> l_name l = n)"
  by (induction ledgers) auto

text \<open>
  Claim C6 (b2b membership), as amended. A sales voucher of the list is in \<open>b2b\<close> if
  and only if the last ledger of the master list whose name is exactly the voucher's
  party (same case) has \<open>registrationType\<close> \<open>Registered\<close> and a non-empty \<open>gstin\<close>;
  otherwise it is in \<open>b2c\<close>. With distinct ledger names, ``the last ledger'' is the
  ledger of that name.
\<close>

theorem gstr1Data_b2b_membership:
  assumes "gstr1Data GSTR1 vouchers ledgers = Some r"
    and "Sales sv \<in> set vouchers"
  shows "(Sales sv \<in> set (b2b r) \<longleftrightarrow>
            (\<exists>l. find (\<lambda>l. l_name l = v_party sv) (rev ledgers) = Some l \<and>
                 l_registrationType l = ''Registered'' \<and> l_gstin l \<noteq> [])) \<and>
         (Sales sv \<in> set (b2c r) \<longleftrightarrow> Sales sv \<notin> set (b2b r)) \<and>
         (distinct (map l_name ledgers) \<longrightarrow>
            (Sales sv \<in> set (b2b r) \<longleftrightarrow>
               (\<exists>l \<in> set ledgers. l_name l = v_party sv \<and>
                  l_registrationType l = ''Registered'' \<and> l_gstin l \<noteq> [])))"
proof -
  from assms(1) have r: "b2b r = filter (b2b_filter (ledgersByName ledgers)) (filter isSales vouchers)"
    "b2c r = filter (b2c_filter (ledgersByName ledgers)) (filter isSales vouchers)"
    by (auto simp: gstr1Data_def Let_def)
  have s: "isSales (Sales sv)" by (simp add: isSales_def)
  have b: "b2b_filter (ledgersByName ledgers) (Sales sv) =
           (\<exists>l. find (\<lambda>l. l_name l = v_party sv) (rev ledgers) = Some l \<and>
                l_registrationType l = ''Registered'' \<and> l_gstin l \<noteq> [])"
    by (simp add: b2b_filter_def ledgersByName_find split: option.splits)
  have d: "distinct (map l_name ledgers) \<Longrightarrow>
           (\<exists>l. find (\<lambda>l. l_name l = v_party sv) (rev ledgers) = Some l \<and>
                l_registrationType l = ''Registered'' \<and> l_gstin l \<noteq> []) =
           (\<exists>l \<in> set ledgers. l_name l = v_party sv \<and>
                  l_registrationType l = ''Registered'' \<and> l_gstin l \<noteq> [])"
    using find_distinct_names [of "rev ledgers" "v_party sv"]
    by (auto simp: rev_map [symmetric])
  from assms(2) s show ?thesis
    unfolding r by (auto simp: b2c_filter_not_b2b b d)
qed

lemma ex_gstr1_exact:
  "gstr1Data GSTR1 [Purchase ex_voucher, Sales ex_sale_exact] ex_ledgers =
     Some \<lparr> b2b = [Sales ex_sale_exact], b2c = [] \<rparr>"
  by (simp add: gstr1Data_def isSales_def b2b_filter_def b2c_filter_def ledgersByName_def
        ex_sale_exact_def ex_sale_def ex_defs)

theorem gstr1Data_b2b_membership_witness:
  "gstr1Data GSTR1 [Purchase ex_voucher, Sales ex_sale_exact] ex_ledgers =
     Some \<lparr> b2b = [Sales ex_sale_exact], b2c = [] \<rparr> \<and>
   Sales ex_sale_exact \<in> set [Purchase ex_voucher, Sales ex_sale_exact] \<and>
   distinct (map l_name ex_ledgers) \<and>
   find (\<lambda>l. l_name l = v_party ex_sale_exact) (rev ex_ledgers) = Some (hd ex_ledgers) \<and>
   l_registrationType (hd ex_ledgers) = ''Registered''"
  using gstr1Data_b2b_membership [OF ex_gstr1_exact, of ex_sale_exact] ex_gstr1_exact
  by (simp add: ex_sale_exact_def ex_sale_def ex_defs)

text \<open>
  The claim as stated matches names case-insensitively; the lookup does not. The party
  \<open>ACME traders\<close> meets the stated condition through the ledger \<open>Acme Traders\<close>, and
  the voucher is classified b2c.
\<close>

theorem gstr1Data_case_insensitive_counterexample:
  "spec_b2b ex_ledgers ex_sale \<and>
   gstr1Data GSTR1 [Sales ex_sale] ex_ledgers = Some \<lparr> b2b = [], b2c = [Sales ex_sale] \<rparr>"
  by (simp add: spec_b2b_def gstr1Data_def isSales_def b2b_filter_def b2c_filter_def
        ledgersByName_def ex_sale_def ex_defs lower_defs)

lemma count_list_filter_split:
  "count_list (filter P xs) v + count_list (filter (\<lambda>x. \<not> P x) xs) v = count_list xs v"
  by (induction xs) auto

lemma length_filter_split:
  "length (filter P xs) + length (filter (\<lambda>x. \<not> P x) xs) = length xs"
  by (induction xs) auto

lemma isSales_iff: "isSales v = (\<exists>sv. v = Sales sv)"
  by (cases v) (simp_all add: isSales_def)

lemma filter_isSales: "filter isSales vs = map Sales (sales_of vs)"
  by (induction vs rule: sales_of.induct) (simp_all add: isSales_def)

lemma count_list_filter_true:
  "P v \<Longrightarrow> count_list (filter P xs) v = count_list xs v"
  by (induction xs) auto

lemma gstr1Data_buckets:
  "gstr1Data GSTR1 vouchers ledgers =
     Some \<lparr> b2b = filter (b2b_filter (ledgersByName ledgers)) (filter isSales vouchers),
            b2c = filter (\<lambda>x. \<not> b2b_filter (ledgersByName ledgers) x) (filter isSales vouchers) \<rparr>"
proof -
  have c: "b2c_filter (ledgersByName ledgers) = (\<lambda>x. \<not> b2b_filter (ledgersByName ledgers) x)"
    by (rule ext) (rule b2c_filter_not_b2b)
  show ?thesis by (simp add: gstr1Data_def Let_def c)
qed

text \<open>
  Claim C7 (the classification is a partition). \<open>gstr1Data\<close> returns two buckets whose
  sizes add up to the number of Sales vouchers of the list; every Sales voucher occurs
  in the two buckets together as often as in the list and is in exactly one of them;
  and every member of a bucket is a Sales voucher of the list, so no voucher of
  another kind is in either.
\<close>

theorem gstr1Data_partition:
  "\<exists>r. gstr1Data GSTR1 vouchers ledgers = Some r \<and>
       length (b2b r) + length (b2c r) = length (sales_of vouchers) \<and>
       (\<forall>sv. count_list (b2b r) (Sales sv) + count_list (b2c r) (Sales sv) =
             count_list vouchers (Sales sv)) \<and>
       (\<forall>sv. Sales sv \<in> set vouchers \<longrightarrow>
             (Sales sv \<in> set (b2b r)) \<noteq> (Sales sv \<in> set (b2c r))) \<and>
       (\<forall>v \<in> set (b2b r) \<union> set (b2c r). (\<exists>sv. v = Sales sv) \<and> v \<in> set vouchers)"
proof -
  let ?P = "b2b_filter (ledgersByName ledgers)"
  let ?s = "filter isSales vouchers"
  let ?R = "\<lparr> b2b = filter ?P ?s, b2c = filter (\<lambda>x. \<not> ?P x) ?s \<rparr>"
  have sel: "b2b ?R = filter ?P ?s" "b2c ?R = filter (\<lambda>x. \<not> ?P x) ?s"
    by simp_all
  have l: "length (filter ?P ?s) + length (filter (\<lambda>x. \<not> ?P x) ?s) = length (sales_of vouchers)"
    unfolding length_filter_split by (simp only: filter_isSales length_map)
  have n: "count_list (filter ?P ?s) (Sales sv) + count_list (filter (\<lambda>x. \<not> ?P x) ?s) (Sales sv) =
           count_list vouchers (Sales sv)" for sv
    unfolding count_list_filter_split
    by (rule count_list_filter_true) (simp add: isSales_def)
  have m: "(Sales sv \<in> set (filter ?P ?s)) \<noteq> (Sales sv \<in> set (filter (\<lambda>x. \<not> ?P x) ?s))"
    if "Sales sv \<in> set vouchers" for sv
    using that by (auto simp: isSales_def)
  have o: "\<forall>v \<in> set (filter ?P ?s) \<union> set (filter (\<lambda>x. \<not> ?P x) ?s).
             (\<exists>sv. v = Sales sv) \<and> v \<in> set vouchers"
    by (auto simp: isSales_iff)
  show ?thesis
  proof (intro exI [of _ ?R] conjI allI impI)
    show "gstr1Data GSTR1 vouchers ledgers = Some ?R" by (rule gstr1Data_buckets)
    show "length (b2b ?R) + length (b2c ?R) = length (sales_of vouchers)"
      unfolding sel by (rule l)
    show "count_list (b2b ?R) (Sales sv) + count_list (b2c ?R) (Sales sv) =
          count_list vouchers (Sales sv)" for sv
      unfolding sel by (rule n)
    show "(Sales sv \<in> set (b2b ?R)) \<noteq> (Sales sv \<in> set (b2c ?R))"
      if "Sales sv \<in> set vouchers" for sv
      unfolding sel using that by (rule m)
    show "\<forall>v \<in> set (b2b ?R) \<union> set (b2c ?R). (\<exists>sv. v = Sales sv) \<and> v \<in> set vouchers"
      unfolding sel by (rule o)
  qed
qed

theorem gstr1Data_partition_witness:
  "gstr1Data GSTR1 [Purchase ex_voucher, Sales ex_sale_exact, Sales ex_sale] ex_ledgers =
     Some \<lparr> b2b = [Sales ex_sale_exact], b2c = [Sales ex_sale] \<rparr> \<and>
   Sales ex_sale \<in> set [Purchase ex_voucher, Sales ex_sale_exact, Sales ex_sale] \<and>
   sales_of [Purchase ex_voucher, Sales ex_sale_exact, Sales ex_sale] = [ex_sale_exact, ex_sale]"
  using gstr1Data_partition [of "[Purchase ex_voucher, Sales ex_sale_exact, Sales ex_sale]" ex_ledgers]
  by (simp add: gstr1Data_def isSales_def b2b_filter_def b2c_filter_def ledgersByName_def
        ex_sale_exact_def ex_sale_def ex_defs)

section \<open>Properties of the arithmetic of doubles\<close>

text \<open>A whole number of magnitude below \<open>2 ^ 53\<close> is a double: rounding leaves it.\<close>

lemma round_half_even_of_int: "round_half_even (of_int k) = k"
  by (simp add: round_half_even_def)

lemma bitlen_pos: "0 < m \<Longrightarrow> 1 \<le> bitlen m"
  by (simp add: bitlen_alt_def)

lemma ilog2_of_int:
  assumes "0 < m"
  shows "ilog2 (of_int m) = bitlen m - 1"
proof -
  have q: "quotient_of (of_int m :: rat) = (m, 1)" by simp
  have b1: "bitlen 1 = 1" by (simp add: bitlen_alt_def)
  from assms bitlen_bounds [of m] have "2 ^ nat (bitlen m - 1) \<le> m" by simp
  then have "(of_int (2 ^ nat (bitlen m - 1)) :: rat) \<le> of_int m"
    by (simp only: of_int_le_iff)
  then have le: "(2::rat) ^ nat (bitlen m - 1) \<le> of_int m" by simp
  from bitlen_pos [OF assms] have "0 \<le> bitlen m - 1" by simp
  with le show ?thesis
    by (simp add: ilog2_def q b1 pow2_def Let_def)
qed

lemma round_double_of_int:
  assumes "\<bar>n\<bar> < 2 ^ 53"
  shows "round_double (of_int n) = of_int n"
proof (cases "n = 0")
  case True
  then show ?thesis by (simp add: round_double_def)
next
  case False
  define m where "m = \<bar>n\<bar>"
  define d where "d = bitlen m - 1"
  define k where "k = nat (52 - d)"
  have m: "0 < m" using False by (simp add: m_def)
  have d0: "0 \<le> d" using bitlen_pos [OF m] by (simp add: d_def)
  from m bitlen_bounds [of m] have "2 ^ nat d \<le> m" by (simp add: d_def)
  from this assms [folded m_def] have "(2::int) ^ nat d < 2 ^ 53" by (rule le_less_trans)
  then have "nat d < 53" by (rule power_less_imp_less_exp [rotated]) simp
  with d0 have d52: "d \<le> 52" by simp
  have a: "\<bar>of_int n :: rat\<bar> = of_int m" by (simp add: m_def)
  have il: "ilog2 (of_int m :: rat) = d"
    unfolding d_def by (rule ilog2_of_int [OF m])
  have q: "max (d - 52) (- 1074) = d - 52" using d0 by simp
  have p: "pow2 (d - 52) = 1 / 2 ^ k"
    using d52 by (cases "d = 52") (simp_all add: pow2_def k_def)
  have s: "(of_int m :: rat) / (1 / 2 ^ k) = of_int (m * 2 ^ k)" by simp
  have "round_double (of_int n) =
        sgn (of_int n) * of_int (round_half_even (of_int m / pow2 (d - 52))) * pow2 (d - 52)"
    using False by (simp add: round_double_def Let_def il q a)
  also have "\<dots> =
        sgn (of_int n) * of_int (round_half_even (of_int m / (1 / 2 ^ k))) * (1 / 2 ^ k)"
    unfolding p ..
  also have "\<dots> = sgn (of_int n) * of_int (m * 2 ^ k) * (1 / 2 ^ k)"
    unfolding s round_half_even_of_int ..
  also have "\<dots> = sgn (of_int n) * (of_int m :: rat)" by simp
  also have "\<dots> = of_int n"
    unfolding a [symmetric] by (simp only: sgn_mult_abs)
  finally show ?thesis .
qed

lemma round_double_whole:
  assumes "x \<in> \<int>" and "\<bar>x\<bar> < 2 ^ 53"
  shows "round_double x = x"
proof -
  from assms(1) obtain n where x: "x = of_int n" by (auto elim: Ints_cases)
  from assms(2) have "(of_int \<bar>n\<bar> :: rat) < of_int (2 ^ 53)" by (simp add: x)
  then have "\<bar>n\<bar> < 2 ^ 53" by (simp only: of_int_less_iff)
  then show ?thesis unfolding x by (rule round_double_of_int)
qed

lemma fadd_whole: "x \<in> \<int> \<Longrightarrow> y \<in> \<int> \<Longrightarrow> \<bar>x\<bar> + \<bar>y\<bar> < 2 ^ 53 \<Longrightarrow> fadd x y = x + y"
  unfolding fadd_def
  by (rule round_double_whole) (auto intro: le_less_trans [OF abs_triangle_ineq])

lemma fsub_whole: "x \<in> \<int> \<Longrightarrow> y \<in> \<int> \<Longrightarrow> \<bar>x\<bar> + \<bar>y\<bar> < 2 ^ 53 \<Longrightarrow> fsub x y = x - y"
  unfolding fsub_def
  by (rule round_double_whole) (auto intro: le_less_trans [OF abs_triangle_ineq4])

section \<open>Properties of dictionaries\<close>

lemma keys_modify: "map fst (modify k f al) = map fst al"
  by (induction al) auto

lemma keys_assign:
  "map fst (assign k v al) = (if k \<in> set (map fst al) then map fst al else map fst al @ [k])"
  by (induction al) (auto simp: rev_image_eqI)

lemma distinct_assign: "distinct (map fst al) \<Longrightarrow> distinct (map fst (assign k v al))"
  by (simp add: keys_assign)


section \<open>Properties of the trial balance\<close>

lemma map_of_assign: "map_of (assign k v b) = (map_of b)(k \<mapsto> v)"
  by (induction b) (auto simp: fun_eq_iff)

lemma map_of_modify:
  "map_of (modify k f b) = (map_of b)(k := map_option f (map_of b k))"
  by (induction b) (auto simp: fun_eq_iff)

lemma net_assign_new:
  "map_of b k = None \<Longrightarrow> net (assign k v b) = net b + (b_debit v - b_credit v)"
  by (induction b) (auto simp: net_def split: if_splits)

lemma net_modify:
  "map_of b k \<noteq> None \<Longrightarrow>
   (\<And>v. b_debit (f v) - b_credit (f v) = b_debit v - b_credit v + d) \<Longrightarrow>
   net (modify k f b) = net b + d"
  by (induction b) (auto simp: net_def split: if_splits)

lemma net_ensureLedger: "net (ensureLedger n b) = net b"
  by (simp add: ensureLedger_def net_assign_new)

lemma has_ensureLedger:
  "(map_of (ensureLedger n b) k = None) = (map_of b k = None \<and> (k \<noteq> n \<or> n = []))"
  by (auto simp: ensureLedger_def map_of_assign)

lemma net_modify_debit:
  "map_of b k \<noteq> None \<Longrightarrow>
   net (modify k (\<lambda>v. v\<lparr> b_debit := b_debit v + x \<rparr>) b) = net b + x"
  by (rule net_modify) simp_all

lemma net_modify_credit:
  "map_of b k \<noteq> None \<Longrightarrow>
   net (modify k (\<lambda>v. v\<lparr> b_credit := b_credit v + x \<rparr>) b) = net b - x"
  using net_modify [where d = "- x" and f = "\<lambda>v. v\<lparr> b_credit := b_credit v + x \<rparr>"]
  by simp

lemma has_modify: "(map_of (modify k f b) k' = None) = (map_of b k' = None)"
  by (simp add: map_of_modify)

lemmas posting_simps = Let_def ensureTaxLedgers_def add_debit_def add_credit_def
  has_modify has_ensureLedger net_modify_debit net_modify_credit net_ensureLedger

lemma post_entries_ok:
  "\<exists>b'. post_entries es b = Inr b' \<and> net b' = net b + journal_net es"
proof (induction es arbitrary: b)
  case Nil
  show ?case by (simp add: journal_net_def)
next
  case (Cons e es)
  show ?case
  proof (cases "je_ledger e = []")
    case True
    with Cons.IH [of "ensureLedger (je_ledger e) b"] show ?thesis
      by (simp add: posting_simps journal_net_def)
  next
    case False
    let ?b3 = "modify (je_ledger e) (\<lambda>v. v\<lparr> b_credit := b_credit v + je_credit e \<rparr>)
                 (modify (je_ledger e) (\<lambda>v. v\<lparr> b_debit := b_debit v + je_debit e \<rparr>)
                    (ensureLedger (je_ledger e) b))"
    from False have step: "post_entries (e # es) b = post_entries es ?b3"
      by (simp add: posting_simps)
    from False have n: "net ?b3 = net b + je_debit e - je_credit e"
      by (simp add: posting_simps)
    from Cons.IH [of ?b3] obtain b' where
      "post_entries es ?b3 = Inr b'" "net b' = net ?b3 + journal_net es" by blast
    with step n False show ?thesis
      by (simp add: journal_net_def)
  qed
qed

lemma post_voucher_ok:
  assumes "names_given v" and "postings_balance v"
  shows "\<exists>b'. post_voucher v b = Inr b' \<and> net b' = net b"
proof (cases v)
  case (Purchase p)
  with assms show ?thesis by (simp add: posting_simps)
next
  case (Sales p)
  with assms show ?thesis by (simp add: posting_simps)
next
  case (Payment p)
  with assms show ?thesis by (simp add: posting_simps)
next
  case (Receipt p)
  with assms show ?thesis by (simp add: posting_simps)
next
  case (Contra c)
  with assms show ?thesis by (simp add: posting_simps)
next
  case (Journal es)
  with assms post_entries_ok [of es b] show ?thesis by (simp add: journal_net_def)
qed

lemma post_vouchers_ok:
  "\<forall>v \<in> set vs. names_given v \<and> postings_balance v \<Longrightarrow>
   \<exists>b'. post_vouchers vs b = Inr b' \<and> net b' = net b"
proof (induction vs arbitrary: b)
  case Nil
  show ?case by simp
next
  case (Cons v vs)
  from Cons.prems post_voucher_ok [of v b] obtain b1 where
    b1: "post_voucher v b = Inr b1" "net b1 = net b" by auto
  from Cons.prems Cons.IH [of b1] obtain b' where
    "post_vouchers vs b1 = Inr b'" "net b' = net b1" by auto
  with b1 show ?case by simp
qed

lemma net_initial: "net (foldl (\<lambda>b l. ensureLedger (l_name l) b) b0 ledgers) = net b0"
  by (induction ledgers arbitrary: b0) (simp_all add: net_ensureLedger)






lemma trial_rows_one_sided:
  "row \<in> set (trial_rows b) \<Longrightarrow>
   (0 < row_debit row \<and> row_credit row = 0) \<or> (0 < row_credit row \<and> row_debit row = 0)"
  by (auto simp: trial_rows_def net_row_def split: if_splits)

text \<open>
  The source's loop over a voucher makes the postings of the voucher, one after the
  other.
\<close>

lemma bind_err_assoc: "bind_err (bind_err m f) g = bind_err m (\<lambda>x. bind_err (f x) g)"
  by (cases m) simp_all

lemma bind_err_Inr_id: "bind_err m Inr = m"
  by (cases m) simp_all

lemma bind_err_cong:
  "m = m' \<Longrightarrow> (\<And>x. m' = Inr x \<Longrightarrow> f x = g x) \<Longrightarrow> bind_err m f = bind_err m' g"
  by (cases m') simp_all

lemma run_Nil: "run [] = Inr"
  by (rule ext) simp

lemma run_fp_Nil: "run_fp [] = Inr"
  by (rule ext) simp

lemma run_single: "run [a] = step a"
  by (rule ext) (simp add: run_Nil bind_err_Inr_id)

lemma run_fp_single: "run_fp [a] = step_fp a"
  by (rule ext) (simp add: run_fp_Nil bind_err_Inr_id)

lemma run_append: "run (xs @ ys) b = bind_err (run xs b) (run ys)"
  by (induction xs arbitrary: b) (simp_all add: bind_err_assoc cong: bind_err_cong)

lemma run_fp_append: "run_fp (xs @ ys) b = bind_err (run_fp xs b) (run_fp ys)"
  by (induction xs arbitrary: b) (simp_all add: bind_err_assoc cong: bind_err_cong)

lemma post_entries_run: "post_entries es b = run (concat (map entry_ops es)) b"
  by (induction es arbitrary: b)
     (simp_all add: run_append Let_def run_single bind_err_assoc cong: bind_err_cong)

lemma post_entries_fp_run: "post_entries_fp es b = run_fp (concat (map entry_ops es)) b"
  by (induction es arbitrary: b)
     (simp_all add: run_fp_append Let_def run_fp_single bind_err_assoc cong: bind_err_cong)

lemma post_voucher_run: "post_voucher v b = run (ops v) b"
  by (cases v)
     (simp_all add: Let_def ensureTaxLedgers_def post_entries_run run_single
        cong: bind_err_cong)

lemma post_voucher_fp_run: "post_voucher_fp v b = run_fp (ops v) b"
  by (cases v)
     (simp_all add: Let_def ensureTaxLedgers_def post_entries_fp_run run_fp_single
        cong: bind_err_cong)

lemma post_vouchers_run: "post_vouchers vs b = run (concat (map ops vs)) b"
  by (induction vs arbitrary: b) (simp_all add: run_append post_voucher_run cong: bind_err_cong)

lemma post_vouchers_fp_run: "post_vouchers_fp vs b = run_fp (concat (map ops vs)) b"
  by (induction vs arbitrary: b)
     (simp_all add: run_fp_append post_voucher_fp_run cong: bind_err_cong)

text \<open>
  On whole numbers the postings are exact as long as the amounts in the table stay
  below \<open>2 ^ 53\<close>.
\<close>

lemma whole_number_Ints: "whole_number x = (x \<in> \<int>)"
  by (auto simp: whole_number_def elim: Ints_cases) (metis Ints_of_int)

lemma modify_cong_set:
  "(\<And>v. (k, v) \<in> set b \<Longrightarrow> f v = g v) \<Longrightarrow> modify k f b = modify k g b"
  by (induction b) auto

lemma set_assign: "e \<in> set (assign k v b) \<Longrightarrow> e \<in> set b \<or> e = (k, v)"
  by (induction b) (auto split: if_splits)

lemma set_modify:
  "e \<in> set (modify k f b) \<Longrightarrow> e \<in> set b \<or> (\<exists>v. (k, v) \<in> set b \<and> e = (k, f v))"
  by (induction b) (auto split: if_splits)

lemma weight_nonneg: "0 \<le> weight b"
  by (auto simp: weight_def intro!: sum_list_nonneg)

lemma entry_weight: "(k, v) \<in> set b \<Longrightarrow> \<bar>b_debit v\<bar> + \<bar>b_credit v\<bar> \<le> weight b"
proof (induction b)
  case Nil
  then show ?case by simp
next
  case (Cons e b)
  show ?case
  proof (cases "e = (k, v)")
    case True
    with weight_nonneg [of b] show ?thesis by (simp add: weight_def)
  next
    case False
    with Cons have "\<bar>b_debit v\<bar> + \<bar>b_credit v\<bar> \<le> weight b" by simp
    then show ?thesis by (simp add: weight_def)
  qed
qed

lemma weight_modify:
  assumes "\<And>v. (k, v) \<in> set b \<Longrightarrow>
             \<bar>b_debit (f v)\<bar> + \<bar>b_credit (f v)\<bar> \<le> \<bar>b_debit v\<bar> + \<bar>b_credit v\<bar> + x"
    and "0 \<le> x"
  shows "weight (modify k f b) \<le> weight b + x"
  using assms
proof (induction b)
  case Nil
  then show ?case by (simp add: weight_def)
next
  case (Cons e b)
  obtain k' v' where e: "e = (k', v')" by (cases e)
  show ?case
  proof (cases "k' = k")
    case True
    with Cons.prems(1) [of v'] e show ?thesis by (simp add: weight_def)
  next
    case False
    from Cons.prems have "weight (modify k f b) \<le> weight b + x"
      by (intro Cons.IH) auto
    with False e show ?thesis by (simp add: weight_def)
  qed
qed

lemma weight_assign_zero:
  "map_of b k = None \<Longrightarrow> weight (assign k \<lparr> b_debit = 0, b_credit = 0 \<rparr> b) = weight b"
  by (induction b) (auto simp: weight_def split: if_splits)

lemma weight_ensureLedger: "weight (ensureLedger k b) = weight b"
  by (simp add: ensureLedger_def weight_assign_zero)

lemma whole_ensureLedger: "whole b \<Longrightarrow> whole (ensureLedger k b)"
  by (auto simp: whole_def ensureLedger_def dest!: set_assign)

lemma whole_modify:
  assumes "whole b"
    and "\<And>v. b_debit v \<in> \<int> \<Longrightarrow> b_credit v \<in> \<int> \<Longrightarrow> b_debit (f v) \<in> \<int> \<and> b_credit (f v) \<in> \<int>"
  shows "whole (modify k f b)"
  unfolding whole_def
proof
  fix e assume "e \<in> set (modify k f b)"
  from set_modify [OF this] show "b_debit (snd e) \<in> \<int> \<and> b_credit (snd e) \<in> \<int>"
  proof
    assume "e \<in> set b"
    with assms(1) show ?thesis by (simp add: whole_def)
  next
    assume "\<exists>v. (k, v) \<in> set b \<and> e = (k, f v)"
    then obtain v where v: "(k, v) \<in> set b" "e = (k, f v)" by blast
    from assms(1) v(1) have "b_debit v \<in> \<int>" "b_credit v \<in> \<int>" by (auto simp: whole_def)
    from assms(2) [OF this] v(2) show ?thesis by simp
  qed
qed

lemma step_fp_eq:
  assumes "whole b" and "amount a \<in> \<int>" and "weight b + \<bar>amount a\<bar> < 2 ^ 53"
  shows "step_fp a b = step a b"
proof (cases a)
  case (Ensure k)
  then show ?thesis by simp
next
  case (Debit k x)
  have "modify k (\<lambda>v. v\<lparr> b_debit := fadd (b_debit v) x \<rparr>) b =
        modify k (\<lambda>v. v\<lparr> b_debit := b_debit v + x \<rparr>) b"
  proof (rule modify_cong_set)
    fix v assume m: "(k, v) \<in> set b"
    from assms(1) m have i: "b_debit v \<in> \<int>" by (auto simp: whole_def)
    from entry_weight [OF m] have "\<bar>b_debit v\<bar> \<le> weight b" by simp
    with assms(3) Debit have "\<bar>b_debit v\<bar> + \<bar>x\<bar> < 2 ^ 53" by simp
    with i assms(2) Debit have "fadd (b_debit v) x = b_debit v + x"
      by (intro fadd_whole) simp_all
    then show "v\<lparr> b_debit := fadd (b_debit v) x \<rparr> = v\<lparr> b_debit := b_debit v + x \<rparr>" by simp
  qed
  with Debit show ?thesis by (simp add: add_debit_fp_def add_debit_def)
next
  case (Credit k x)
  have "modify k (\<lambda>v. v\<lparr> b_credit := fadd (b_credit v) x \<rparr>) b =
        modify k (\<lambda>v. v\<lparr> b_credit := b_credit v + x \<rparr>) b"
  proof (rule modify_cong_set)
    fix v assume m: "(k, v) \<in> set b"
    from assms(1) m have i: "b_credit v \<in> \<int>" by (auto simp: whole_def)
    from entry_weight [OF m] have "\<bar>b_credit v\<bar> \<le> weight b" by simp
    with assms(3) Credit have "\<bar>b_credit v\<bar> + \<bar>x\<bar> < 2 ^ 53" by simp
    with i assms(2) Credit have "fadd (b_credit v) x = b_credit v + x"
      by (intro fadd_whole) simp_all
    then show "v\<lparr> b_credit := fadd (b_credit v) x \<rparr> = v\<lparr> b_credit := b_credit v + x \<rparr>" by simp
  qed
  with Credit show ?thesis by (simp add: add_credit_fp_def add_credit_def)
qed

lemma step_whole:
  assumes "step a b = Inr b'" and "whole b" and "amount a \<in> \<int>"
  shows "whole b'"
proof (cases a)
  case (Ensure k)
  with assms show ?thesis by (auto simp: whole_ensureLedger)
next
  case (Debit k x)
  with assms(1) have "b' = modify k (\<lambda>v. v\<lparr> b_debit := b_debit v + x \<rparr>) b"
    by (auto simp: add_debit_def split: if_splits)
  with assms(2,3) Debit show ?thesis by (auto intro!: whole_modify)
next
  case (Credit k x)
  with assms(1) have "b' = modify k (\<lambda>v. v\<lparr> b_credit := b_credit v + x \<rparr>) b"
    by (auto simp: add_credit_def split: if_splits)
  with assms(2,3) Credit show ?thesis by (auto intro!: whole_modify)
qed

lemma step_weight:
  assumes "step a b = Inr b'"
  shows "weight b' \<le> weight b + \<bar>amount a\<bar>"
proof (cases a)
  case (Ensure k)
  with assms show ?thesis by (auto simp: weight_ensureLedger)
next
  case (Debit k x)
  with assms(1) have "b' = modify k (\<lambda>v. v\<lparr> b_debit := b_debit v + x \<rparr>) b"
    by (auto simp: add_debit_def split: if_splits)
  moreover have "weight (modify k (\<lambda>v. v\<lparr> b_debit := b_debit v + x \<rparr>) b) \<le> weight b + \<bar>x\<bar>"
    by (rule weight_modify) simp_all
  ultimately show ?thesis using Debit by simp
next
  case (Credit k x)
  with assms(1) have "b' = modify k (\<lambda>v. v\<lparr> b_credit := b_credit v + x \<rparr>) b"
    by (auto simp: add_credit_def split: if_splits)
  moreover have "weight (modify k (\<lambda>v. v\<lparr> b_credit := b_credit v + x \<rparr>) b) \<le> weight b + \<bar>x\<bar>"
    by (rule weight_modify) simp_all
  ultimately show ?thesis using Credit by simp
qed

lemma volume_nonneg: "0 \<le> volume os"
  by (auto simp: volume_def intro!: sum_list_nonneg)

lemma run_whole:
  "run os b = Inr b' \<Longrightarrow> whole b \<Longrightarrow> \<forall>a \<in> set os. amount a \<in> \<int> \<Longrightarrow>
   whole b' \<and> weight b' \<le> weight b + volume os"
proof (induction os arbitrary: b)
  case Nil
  then show ?case by (simp add: volume_def)
next
  case (Cons a os)
  from Cons.prems(1) obtain b1 where
    b1: "step a b = Inr b1" "run os b1 = Inr b'" by (auto dest!: bind_err_Inr)
  from step_whole [OF b1(1) Cons.prems(2)] Cons.prems(3) have w1: "whole b1" by simp
  from Cons.IH [OF b1(2) w1] Cons.prems(3) have
    "whole b'" "weight b' \<le> weight b1 + volume os" by simp_all
  with step_weight [OF b1(1)] show ?case by (simp add: volume_def)
qed

lemma run_fp_eq:
  "whole b \<Longrightarrow> \<forall>a \<in> set os. amount a \<in> \<int> \<Longrightarrow> weight b + volume os < 2 ^ 53 \<Longrightarrow>
   run_fp os b = run os b"
proof (induction os arbitrary: b)
  case Nil
  show ?case by simp
next
  case (Cons a os)
  from Cons.prems(3) volume_nonneg [of os] have "weight b + \<bar>amount a\<bar> < 2 ^ 53"
    by (simp add: volume_def)
  with Cons.prems(1,2) have s: "step_fp a b = step a b" by (intro step_fp_eq) simp_all
  show ?case
  proof (cases "step a b")
    case (Inl e)
    with s show ?thesis by simp
  next
    case (Inr b1)
    from step_whole [OF Inr Cons.prems(1)] Cons.prems(2) have w1: "whole b1" by simp
    from step_weight [OF Inr] Cons.prems(3) have "weight b1 + volume os < 2 ^ 53"
      by (simp add: volume_def)
    with Cons.IH [OF w1] Cons.prems(2) have "run_fp os b1 = run os b1" by simp
    with s Inr show ?thesis by simp
  qed
qed

lemma bal_step:
  "step a b = Inr b' \<Longrightarrow>
   b_debit (bal b' k) = b_debit (bal b k) + op_debit k a \<and>
   b_credit (bal b' k) = b_credit (bal b k) + op_credit k a"
  by (cases a)
     (auto simp: bal_def ensureLedger_def add_debit_def add_credit_def map_of_assign
        map_of_modify split: if_splits option.splits)

lemma bal_run:
  "run os b = Inr b' \<Longrightarrow>
   b_debit (bal b' k) = b_debit (bal b k) + sum_list (map (op_debit k) os) \<and>
   b_credit (bal b' k) = b_credit (bal b k) + sum_list (map (op_credit k) os)"
proof (induction os arbitrary: b)
  case Nil
  then show ?case by simp
next
  case (Cons a os)
  from Cons.prems obtain b1 where
    b1: "step a b = Inr b1" "run os b1 = Inr b'" by (auto dest!: bind_err_Inr)
  from bal_step [OF b1(1), of k] Cons.IH [OF b1(2)] show ?case by simp
qed

lemma distinct_step: "step a b = Inr b' \<Longrightarrow> distinct (map fst b) \<Longrightarrow> distinct (map fst b')"
  by (cases a)
     (auto simp: ensureLedger_def add_debit_def add_credit_def keys_modify distinct_assign
        split: if_splits)

lemma distinct_run: "run os b = Inr b' \<Longrightarrow> distinct (map fst b) \<Longrightarrow> distinct (map fst b')"
proof (induction os arbitrary: b)
  case Nil
  then show ?case by simp
next
  case (Cons a os)
  from Cons.prems(1) obtain b1 where
    b1: "step a b = Inr b1" "run os b1 = Inr b'" by (auto dest!: bind_err_Inr)
  from Cons.IH [OF b1(2) distinct_step [OF b1(1) Cons.prems(2)]] show ?case .
qed

lemma initial_table:
  "distinct (map fst b) \<Longrightarrow> \<forall>e \<in> set b. snd e = \<lparr> b_debit = 0, b_credit = 0 \<rparr> \<Longrightarrow>
   distinct (map fst (foldl (\<lambda>b l. ensureLedger (l_name l) b) b ledgers)) \<and>
   (\<forall>e \<in> set (foldl (\<lambda>b l. ensureLedger (l_name l) b) b ledgers).
      snd e = \<lparr> b_debit = 0, b_credit = 0 \<rparr>)"
proof (induction ledgers arbitrary: b)
  case Nil
  then show ?case by simp
next
  case (Cons l ledgers)
  have "distinct (map fst (ensureLedger (l_name l) b))"
    using Cons.prems(1) by (simp add: ensureLedger_def distinct_assign)
  moreover have "\<forall>e \<in> set (ensureLedger (l_name l) b). snd e = \<lparr> b_debit = 0, b_credit = 0 \<rparr>"
    using Cons.prems(2) by (auto simp: ensureLedger_def dest!: set_assign)
  ultimately show ?case using Cons.IH by simp
qed

lemma zero_table:
  assumes "\<forall>e \<in> set b. snd e = \<lparr> b_debit = 0, b_credit = 0 \<rparr>"
  shows "whole b" and "weight b = 0" and "bal b k = \<lparr> b_debit = 0, b_credit = 0 \<rparr>"
proof -
  from assms show "whole b" by (simp add: whole_def)
  from assms show "weight b = 0" by (induction b) (simp_all add: weight_def)
  show "bal b k = \<lparr> b_debit = 0, b_credit = 0 \<rparr>"
  proof (cases "map_of b k")
    case None
    then show ?thesis by (simp add: bal_def)
  next
    case (Some v)
    then have "(k, v) \<in> set b" by (rule map_of_SomeD)
    with assms have "v = \<lparr> b_debit = 0, b_credit = 0 \<rparr>" by force
    with Some show ?thesis by (simp add: bal_def)
  qed
qed









lemma net_row_fp_eq:
  assumes "b_debit (snd e) \<in> \<int>" and "b_credit (snd e) \<in> \<int>"
    and "\<bar>b_debit (snd e)\<bar> + \<bar>b_credit (snd e)\<bar> < 2 ^ 53"
  shows "net_row_fp e = net_row e"
proof -
  from assms have "fsub (b_debit (snd e)) (b_credit (snd e)) = b_debit (snd e) - b_credit (snd e)"
    by (intro fsub_whole)
  moreover from assms have
    "fsub (b_credit (snd e)) (b_debit (snd e)) = b_credit (snd e) - b_debit (snd e)"
    by (intro fsub_whole) (simp_all add: add.commute)
  ultimately show ?thesis by (cases e) (simp add: net_row_fp_def net_row_def)
qed

lemma trial_rows_fp_eq:
  assumes "whole b" and "weight b < 2 ^ 53"
  shows "trial_rows_fp b = trial_rows b"
proof -
  have "map net_row_fp b = map net_row b"
  proof (rule map_cong [OF refl])
    fix e assume e: "e \<in> set b"
    then have "(fst e, snd e) \<in> set b" by simp
    from entry_weight [OF this] assms(2) have
      "\<bar>b_debit (snd e)\<bar> + \<bar>b_credit (snd e)\<bar> < 2 ^ 53" by simp
    with assms(1) e show "net_row_fp e = net_row e"
      by (intro net_row_fp_eq) (simp_all add: whole_def)
  qed
  then show ?thesis by (simp only: trial_rows_fp_def trial_rows_def)
qed

lemma net_row_bound:
  "0 \<le> row_debit (net_row e) \<and> 0 \<le> row_credit (net_row e) \<and>
   row_debit (net_row e) + row_credit (net_row e) \<le> \<bar>b_debit (snd e)\<bar> + \<bar>b_credit (snd e)\<bar>"
  by (cases e) (auto simp: net_row_def)

lemma trial_rows_bound:
  "0 \<le> sum_list (map row_debit (trial_rows b)) \<and>
   0 \<le> sum_list (map row_credit (trial_rows b)) \<and>
   sum_list (map row_debit (trial_rows b)) + sum_list (map row_credit (trial_rows b)) \<le> weight b"
proof (induction b)
  case Nil
  show ?case by (simp add: trial_rows_def weight_def)
next
  case (Cons e b)
  have w: "weight (e # b) = \<bar>b_debit (snd e)\<bar> + \<bar>b_credit (snd e)\<bar> + weight b"
    by (simp add: weight_def)
  show ?case
  proof (cases "0 < row_debit (net_row e) \<or> 0 < row_credit (net_row e)")
    case True
    then have "trial_rows (e # b) = net_row e # trial_rows b"
      by (simp add: trial_rows_def)
    with Cons.IH net_row_bound [of e] w show ?thesis by simp
  next
    case False
    then have "trial_rows (e # b) = trial_rows b"
      by (simp add: trial_rows_def)
    with Cons.IH w show ?thesis by (auto intro!: add_increasing)
  qed
qed

lemma trial_rows_whole:
  "whole b \<Longrightarrow> row \<in> set (trial_rows b) \<Longrightarrow>
   row_debit row \<in> \<int> \<and> row_credit row \<in> \<int> \<and> 0 \<le> row_debit row \<and> 0 \<le> row_credit row"
  by (auto simp: trial_rows_def whole_def net_row_def split: if_splits)

lemma foldl_totals_fp_eq:
  assumes "\<forall>r \<in> set rs. row_debit r \<in> \<int> \<and> row_credit r \<in> \<int> \<and> 0 \<le> row_debit r \<and> 0 \<le> row_credit r"
    and "tot_debit acc \<in> \<int>" and "tot_credit acc \<in> \<int>"
    and "0 \<le> tot_debit acc" and "0 \<le> tot_credit acc"
    and "tot_debit acc + sum_list (map row_debit rs) < 2 ^ 53"
    and "tot_credit acc + sum_list (map row_credit rs) < 2 ^ 53"
  shows "foldl (\<lambda>acc curr. \<lparr> tot_debit = fadd (tot_debit acc) (row_debit curr),
                             tot_credit = fadd (tot_credit acc) (row_credit curr) \<rparr>) acc rs =
         foldl (\<lambda>acc curr. \<lparr> tot_debit = tot_debit acc + row_debit curr,
                             tot_credit = tot_credit acc + row_credit curr \<rparr>) acc rs"
  using assms
proof (induction rs arbitrary: acc)
  case Nil
  show ?case by simp
next
  case (Cons r rs)
  from Cons.prems(1) have nn: "0 \<le> sum_list (map row_debit rs)" "0 \<le> sum_list (map row_credit rs)"
    by (auto intro!: sum_list_nonneg)
  from Cons.prems nn have d: "fadd (tot_debit acc) (row_debit r) = tot_debit acc + row_debit r"
    by (intro fadd_whole) simp_all
  from Cons.prems nn have c: "fadd (tot_credit acc) (row_credit r) = tot_credit acc + row_credit r"
    by (intro fadd_whole) simp_all
  let ?acc = "\<lparr> tot_debit = tot_debit acc + row_debit r,
                tot_credit = tot_credit acc + row_credit r \<rparr>"
  from Cons.prems have "foldl (\<lambda>acc curr. \<lparr> tot_debit = fadd (tot_debit acc) (row_debit curr),
                             tot_credit = fadd (tot_credit acc) (row_credit curr) \<rparr>) ?acc rs =
         foldl (\<lambda>acc curr. \<lparr> tot_debit = tot_debit acc + row_debit curr,
                             tot_credit = tot_credit acc + row_credit curr \<rparr>) ?acc rs"
    by (intro Cons.IH) (simp_all add: add.assoc)
  with d c show ?case by simp
qed

lemma trial_totals_fp_eq:
  assumes "whole b" and "weight b < 2 ^ 53"
  shows "trial_totals_fp (trial_rows b) = trial_totals (trial_rows b)"
  unfolding trial_totals_fp_def trial_totals_def
proof (rule foldl_totals_fp_eq)
  show "\<forall>r \<in> set (trial_rows b).
          row_debit r \<in> \<int> \<and> row_credit r \<in> \<int> \<and> 0 \<le> row_debit r \<and> 0 \<le> row_credit r"
    using trial_rows_whole [OF assms(1)] by blast
  from trial_rows_bound [of b] assms(2)
  show "tot_debit \<lparr> tot_debit = 0, tot_credit = 0 \<rparr> + sum_list (map row_debit (trial_rows b))
          < 2 ^ 53" by simp
  from trial_rows_bound [of b] assms(2)
  show "tot_credit \<lparr> tot_debit = 0, tot_credit = 0 \<rparr> + sum_list (map row_credit (trial_rows b))
          < 2 ^ 53" by simp
qed simp_all

lemma trialBalanceData_fp_exact:
  assumes "\<forall>v \<in> set vouchers. names_given v \<and> postings_balance v"
    and "\<forall>a \<in> set (postings vouchers). whole_number (amount a)"
    and "volume (postings vouchers) < 2 ^ 53"
  shows "\<exists>b. post_vouchers vouchers (foldl (\<lambda>b l. ensureLedger (l_name l) b) [] ledgers) = Inr b \<and>
           net b = 0 \<and> distinct (map fst b) \<and>
           (\<forall>k. b_debit (bal b k) = posted_debit k vouchers \<and>
                 b_credit (bal b k) = posted_credit k vouchers) \<and>
           trialBalanceData_fp TrialBalance vouchers ledgers =
             Inr (Some \<lparr> tb_result = trial_rows b, tb_totals = trial_totals (trial_rows b) \<rparr>)"
proof -
  let ?b0 = "foldl (\<lambda>b l. ensureLedger (l_name l) b) [] ledgers"
  from initial_table [of "[]" ledgers] have
    d0: "distinct (map fst ?b0)" and z0: "\<forall>e \<in> set ?b0. snd e = \<lparr> b_debit = 0, b_credit = 0 \<rparr>"
    by simp_all
  note z = zero_table [OF z0]
  from assms(2) have ints: "\<forall>a \<in> set (postings vouchers). amount a \<in> \<int>"
    by (simp add: whole_number_Ints)
  from post_vouchers_ok [OF assms(1), of ?b0] obtain b where
    b: "post_vouchers vouchers ?b0 = Inr b" "net b = net ?b0" by blast
  have n: "net b = 0" using b(2) by (simp add: net_initial) (simp add: net_def)
  from b(1) have r: "run (postings vouchers) ?b0 = Inr b"
    by (simp add: post_vouchers_run postings_def)
  from run_whole [OF r z(1) ints] z(2) assms(3) have w: "whole b" "weight b < 2 ^ 53"
    by simp_all
  from distinct_run [OF r d0] have d: "distinct (map fst b)" .
  from bal_run [OF r] z(3) have
    t: "\<forall>k. b_debit (bal b k) = posted_debit k vouchers \<and>
            b_credit (bal b k) = posted_credit k vouchers"
    by (simp add: posted_debit_def posted_credit_def)
  from z(1,2) ints assms(3) have "run_fp (postings vouchers) ?b0 = run (postings vouchers) ?b0"
    by (intro run_fp_eq) simp_all
  with r have "post_vouchers_fp vouchers ?b0 = Inr b"
    by (simp add: post_vouchers_fp_run postings_def)
  then have "trialBalanceData_fp TrialBalance vouchers ledgers =
      Inr (Some \<lparr> tb_result = trial_rows b, tb_totals = trial_totals (trial_rows b) \<rparr>)"
    by (simp add: trialBalanceData_fp_def Let_def trial_rows_fp_eq [OF w] trial_totals_fp_eq [OF w])
  with b(1) n d t show ?thesis by blast
qed

lemma trialBalanceData_fp_agrees:
  assumes "\<forall>v \<in> set vouchers. names_given v \<and> postings_balance v"
    and "\<forall>a \<in> set (postings vouchers). whole_number (amount a)"
    and "volume (postings vouchers) < 2 ^ 53"
  shows "trialBalanceData_fp TrialBalance vouchers ledgers =
         trialBalanceData TrialBalance vouchers ledgers"
proof -
  from trialBalanceData_fp_exact [OF assms, of ledgers] obtain b where
    "post_vouchers vouchers (foldl (\<lambda>b l. ensureLedger (l_name l) b) [] ledgers) = Inr b"
    "trialBalanceData_fp TrialBalance vouchers ledgers =
       Inr (Some \<lparr> tb_result = trial_rows b, tb_totals = trial_totals (trial_rows b) \<rparr>)"
    by blast
  then show ?thesis by (simp add: trialBalanceData_def Let_def)
qed






text \<open>
  Amounts that are not whole numbers can break the closure although every voucher
  balances: the debit column adds 0.1, 0.2 and 0.3 and the credit of Cash was formed
  as 0.3 + 0.2 + 0.1, and the two sums differ in the last bit.
\<close>

lemma ex_tenths_trial_balance:
  "list_all (\<lambda>v. names_given v \<and> postings_balance v) ex_tenths \<and>
   map_sum id (map_option tb_totals) (trialBalanceData_fp TrialBalance ex_tenths ex_tenths_ledgers) =
     Inr (Some \<lparr> tot_debit = 1351079888211149 / 2251799813685248,
                 tot_credit = 5404319552844595 / 9007199254740992 \<rparr>)"
  by code_simp

section \<open>Properties of the stock reports\<close>





































section \<open>Properties of the extraction with retries\<close>

lemma retry_loop_third:
  "retry_loop svc fl b 3 2 d w =
     (case generateAndParse svc (calls w) fl b of
        Inr x \<Rightarrow> (Inr x, w\<lparr> calls := calls w + 1 \<rparr>)
      | Inl e \<Rightarrow> (Inl (JsError ''Failed to extract invoice data after multiple retries.''),
                 w\<lparr> calls := calls w + 1 \<rparr>))"
  by (subst retry_loop.simps) (simp split: sum.splits)

lemma retry_loop_second:
  "retry_loop svc fl b 3 1 d w =
     (case generateAndParse svc (calls w) fl b of
        Inr x \<Rightarrow> (Inr x, w\<lparr> calls := calls w + 1 \<rparr>)
      | Inl e \<Rightarrow> retry_loop svc fl b 3 2 (d * 2)
                 (w\<lparr> calls := calls w + 1, sleeps := sleeps w @ [d] \<rparr>))"
  by (subst retry_loop.simps) (simp split: sum.splits)

lemma retry_loop_first:
  "retry_loop svc fl b 3 0 d w =
     (case generateAndParse svc (calls w) fl b of
        Inr x \<Rightarrow> (Inr x, w\<lparr> calls := calls w + 1 \<rparr>)
      | Inl e \<Rightarrow> retry_loop svc fl b 3 1 (d * 2)
                 (w\<lparr> calls := calls w + 1, sleeps := sleeps w @ [d] \<rparr>))"
  by (subst retry_loop.simps) (simp split: sum.splits)

lemmas retry_unrolled = retry_loop_first retry_loop_second retry_loop_third

lemma extract_bounds:
  assumes "extractInvoiceDataWithRetry svc fl 3 1000 w = (r, w')"
  shows "calls w \<le> calls w' \<and> calls w' \<le> calls w + 3 \<and>
         sleeps w' = sleeps w @ take (calls w' - calls w - 1) [1000, 2000]"
  using assms
  by (auto simp: extractInvoiceDataWithRetry_def retry_unrolled split: sum.splits)

lemma extract_exhausted:
  assumes "fileToBase64 svc fl = Inr b"
    and "\<forall>i<3. isl (generateAndParse svc (calls w + i) fl b)"
  shows "extractInvoiceDataWithRetry svc fl 3 1000 w =
           (Inl (JsError retry_message), w\<lparr> calls := calls w + 3, sleeps := sleeps w @ [1000, 2000] \<rparr>)"
proof -
  from assms(2) have "isl (generateAndParse svc (calls w) fl b)"
    "isl (generateAndParse svc (calls w + 1) fl b)"
    "isl (generateAndParse svc (calls w + 2) fl b)"
    using assms(2) [rule_format, of 0] assms(2) [rule_format, of 1] assms(2) [rule_format, of 2]
    by simp_all
  then show ?thesis
    by (auto simp: extractInvoiceDataWithRetry_def assms(1) retry_unrolled isl_def
             retry_message_def split: sum.splits)
qed

lemma extract_failure:
  assumes "extractInvoiceDataWithRetry svc fl 3 1000 w = (Inl e, w')"
    and "calls w < calls w'"
  shows "e = JsError retry_message \<and> calls w' = calls w + 3"
  using assms
  by (auto simp: extractInvoiceDataWithRetry_def retry_unrolled retry_message_def
           split: sum.splits)

lemma length_update_files: "length (update_files fid g prev) = length prev"
  by (simp add: update_files_def)

lemma nth_update_files:
  "i < length prev \<Longrightarrow>
   update_files fid g prev ! i = (if f_id (prev ! i) = fid then g (prev ! i) else prev ! i)"
  by (simp add: update_files_def)

lemma process_file_step:
  assumes "process_file svc file (prev, w) = (prev', w')"
  shows "length prev' = length prev"
    and "i < length prev \<Longrightarrow> f_id (prev' ! i) = f_id (prev ! i)"
    and "i < length prev \<Longrightarrow> done_at prev i \<Longrightarrow> done_at prev' i"
    and "i < length prev \<Longrightarrow> f_status file = Pending \<Longrightarrow> f_id (prev ! i) = f_id file \<Longrightarrow>
         done_at prev' i"
  using assms
  by (auto simp: process_file_def Let_def length_update_files nth_update_files done_at_def
           split: if_splits prod.splits sum.splits)

lemma foldl_process_file:
  assumes "foldl (\<lambda>st file. process_file svc file st) (prev, w) rest = (prev', w')"
  shows "length prev' = length prev \<and>
         (\<forall>i<length prev.
            f_id (prev' ! i) = f_id (prev ! i) \<and>
            (done_at prev i \<longrightarrow> done_at prev' i) \<and>
            ((\<exists>x \<in> set rest. f_status x = Pending \<and> f_id x = f_id (prev ! i)) \<longrightarrow>
               done_at prev' i))"
  using assms
proof (induction rest arbitrary: prev w)
  case Nil
  then show ?case by simp
next
  case (Cons x rest)
  obtain p1 w1 where s: "process_file svc x (prev, w) = (p1, w1)"
    by (cases "process_file svc x (prev, w)")
  with Cons.prems have
    r: "foldl (\<lambda>st file. process_file svc file st) (p1, w1) rest = (prev', w')" by simp
  note st = process_file_step [OF s]
  note ih = Cons.IH [OF r]
  show ?case
  proof (intro conjI allI impI)
    show "length prev' = length prev" using ih st(1) by simp
  next
    fix i assume i: "i < length prev"
    with st(1) have i1: "i < length p1" by simp
    show "f_id (prev' ! i) = f_id (prev ! i)" using ih i1 st(2) [OF i] by simp
    show "done_at prev' i" if "done_at prev i"
      using ih i1 st(3) [OF i that] by simp
    show "done_at prev' i"
      if "\<exists>y \<in> set (x # rest). f_status y = Pending \<and> f_id y = f_id (prev ! i)"
    proof -
      from that consider "f_status x = Pending \<and> f_id x = f_id (prev ! i)"
        | "\<exists>y \<in> set rest. f_status y = Pending \<and> f_id y = f_id (prev ! i)" by auto
      then show ?thesis
      proof cases
        case 1
        with st(4) [OF i] have "done_at p1 i" by simp
        with ih i1 show ?thesis by simp
      next
        case 2
        with st(2) [OF i] have "\<exists>y \<in> set rest. f_status y = Pending \<and> f_id y = f_id (p1 ! i)"
          by simp
        with ih i1 show ?thesis by blast
      qed
    qed
  qed
qed

lemma startProcessing_all_done:
  assumes "startProcessing svc files w = (files', w')"
  shows "length files' = length files \<and>
         (\<forall>i<length files. f_status (files ! i) = Pending \<longrightarrow> done_at files' i)"
proof -
  from assms have
    "foldl (\<lambda>st file. process_file svc file st) (files, w) files = (files', w')"
    by (simp add: startProcessing_def)
  from foldl_process_file [OF this] show ?thesis
    by (metis nth_mem)
qed

lemmas processing_defs = startProcessing_def process_file_def extractInvoiceDataWithRetry_def
  retry_unrolled update_files_def error_message_def

lemmas ex_processing_defs = ex_service_def ex_pending_a_def ex_pending_b_def ex_world_def

text \<open>
  Claim C8 (retry semantics), as amended. Processing one pending file runs the
  extraction at most 3 times, waits 1000 ms and then 2000 ms between consecutive
  attempts and never after the last one; when the file is read and all three attempts
  fail, every entry with the file's id has status \<open>error\<close> and the fixed message
  ``Failed to extract invoice data after multiple retries.'', and an entry that ends in
  \<open>error\<close> after at least one attempt carries that message, whatever the attempts
  threw. The batch goes on after a failure: \<open>startProcessing\<close> keeps the length of the
  list and leaves every file that was pending with status \<open>success\<close> or \<open>error\<close>.
\<close>

theorem startProcessing_retry:
  assumes "f_status file = Pending"
    and "process_file svc file (prev, w) = (prev', w')"
  shows "calls w \<le> calls w' \<and> calls w' \<le> calls w + 3 \<and>
         sleeps w' = sleeps w @ take (calls w' - calls w - 1) [1000, 2000] \<and>
         (\<forall>b. fileToBase64 svc (f_file file) = Inr b \<and>
              (\<forall>i<3. isl (generateAndParse svc (calls w + i) (f_file file) b)) \<longrightarrow>
              calls w' = calls w + 3 \<and> sleeps w' = sleeps w @ [1000, 2000] \<and>
              (\<forall>i<length prev. f_id (prev ! i) = f_id file \<longrightarrow>
                 f_status (prev' ! i) = Error \<and> f_error (prev' ! i) = Some retry_message)) \<and>
         (\<forall>i<length prev. f_id (prev ! i) = f_id file \<and> f_status (prev' ! i) = Error \<and>
              calls w < calls w' \<longrightarrow> f_error (prev' ! i) = Some retry_message) \<and>
         (\<forall>files w0 files' w1. startProcessing svc files w0 = (files', w1) \<longrightarrow>
            length files' = length files \<and>
            (\<forall>i<length files. f_status (files ! i) = Pending \<longrightarrow> done_at files' i))"
proof -
  obtain r where r: "extractInvoiceDataWithRetry svc (f_file file) 3 1000 w = (r, w')"
    using assms by (auto simp: process_file_def Let_def split: prod.splits sum.splits)
  note b = extract_bounds [OF r]
  have exhausted: "calls w' = calls w + 3 \<and> sleeps w' = sleeps w @ [1000, 2000] \<and>
        (\<forall>i<length prev. f_id (prev ! i) = f_id file \<longrightarrow>
           f_status (prev' ! i) = Error \<and> f_error (prev' ! i) = Some retry_message)"
    if "fileToBase64 svc (f_file file) = Inr b"
      and "\<forall>i<3. isl (generateAndParse svc (calls w + i) (f_file file) b)" for b
    using assms extract_exhausted [OF that]
    by (auto simp: process_file_def Let_def nth_update_files length_update_files
          error_message_def)
  have failed: "f_error (prev' ! i) = Some retry_message"
    if "i < length prev" "f_id (prev ! i) = f_id file" "f_status (prev' ! i) = Error"
      "calls w < calls w'" for i
  proof (cases r)
    case (Inl e)
    with r that(4) extract_failure [of svc "f_file file" w e w'] have "e = JsError retry_message"
      by simp
    with assms r Inl that(1,2) show ?thesis
      by (auto simp: process_file_def Let_def nth_update_files length_update_files
            error_message_def)
  next
    case (Inr d)
    with assms r that(1,2,3) show ?thesis
      by (auto simp: process_file_def Let_def nth_update_files length_update_files)
  qed
  from b exhausted failed startProcessing_all_done show ?thesis
    by blast
qed

lemma ex_process_file:
  "process_file ex_service ex_pending_a ([ex_pending_a, ex_pending_b], ex_world) =
     ([ex_pending_a\<lparr> f_status := Error, f_error := Some retry_message \<rparr>, ex_pending_b],
      \<lparr> calls = 3, sleeps = [1000, 2000] \<rparr>)"
  by (simp add: processing_defs ex_processing_defs retry_message_def)

theorem startProcessing_retry_witness:
  "f_status ex_pending_a = Pending \<and>
   process_file ex_service ex_pending_a ([ex_pending_a, ex_pending_b], ex_world) =
     ([ex_pending_a\<lparr> f_status := Error, f_error := Some retry_message \<rparr>, ex_pending_b],
      \<lparr> calls = 3, sleeps = [1000, 2000] \<rparr>) \<and>
   fileToBase64 ex_service (f_file ex_pending_a) = Inr ''aW52b2ljZQ=='' \<and>
   isl (generateAndParse ex_service 2 (f_file ex_pending_a) ''aW52b2ljZQ=='') \<and>
   startProcessing ex_service [ex_pending_a, ex_pending_b] ex_world =
     ([ex_pending_a\<lparr> f_status := Error, f_error := Some retry_message \<rparr>,
       ex_pending_b\<lparr> f_status := Success, f_extractedData := Some ex_data \<rparr>],
      \<lparr> calls = 4, sleeps = [1000, 2000] \<rparr>)"
proof -
  have p: "f_status ex_pending_a = Pending" by (simp add: ex_pending_a_def)
  from startProcessing_retry [OF p ex_process_file] ex_process_file show ?thesis
    by (simp add: processing_defs ex_processing_defs retry_message_def)
qed

text \<open>
  The claim as stated has the file carry the message of its last attempt: here the
  third attempt fails with ``503 Service Unavailable'', and the file carries the fixed
  message instead.
\<close>

theorem startProcessing_last_message_counterexample:
  "startProcessing ex_service [ex_pending_a] ex_world =
     ([ex_pending_a\<lparr> f_status := Error, f_error := Some retry_message \<rparr>],
      \<lparr> calls = 3, sleeps = [1000, 2000] \<rparr>) \<and>
   generateAndParse ex_service 2 (f_file ex_pending_a) ''aW52b2ljZQ=='' =
     Inl (JsError ''503 Service Unavailable'') \<and>
   retry_message \<noteq> ''503 Service Unavailable''"
  by (simp add: processing_defs ex_processing_defs retry_message_def)

end
